theory Spec2Isabelle
  imports Complex_Main
begin

section \<open>Numbers, vectors and arrays\<close>

text \<open>
  The program computes with NumPy float64 values. They are modelled as mathematical
  reals: every \<open>+\<close>, \<open>-\<close>, \<open>*\<close> and \<open>/\<close> below is exact, where the program's is
  rounded, so a statement about the model is a statement about the program up to that
  rounding. Two non-finite values are kept apart from the reals: \<open>np.inf\<close>, which the
  source creates on purpose (the adjusted distance at a source's own position), has a
  constructor of its own; and a division by a zero mass, which makes velocity and
  position \<open>inf\<close> or \<open>NaN\<close>, ends the model's run (\<open>NonFinite\<close> below). Points are float
  arrays, as the default \<open>ORIGIN\<close> is. Python's \<open>int\<close> is \<open>int\<close>. A row of an
  \<open>(n, 3)\<close> array is a \<open>vec3\<close>, the array a list of rows.
\<close>

type_synonym vec3 = "real \<times> real \<times> real"

definition zeros3 :: vec3 where
  "zeros3 = (0, 0, 0)"

fun vadd :: "vec3 \<Rightarrow> vec3 \<Rightarrow> vec3" where
  "vadd (a, b, c) (x, y, z) = (a + x, b + y, c + z)"

fun vsub :: "vec3 \<Rightarrow> vec3 \<Rightarrow> vec3" where
  "vsub (a, b, c) (x, y, z) = (a - x, b - y, c - z)"

fun smul :: "real \<Rightarrow> vec3 \<Rightarrow> vec3" where
  "smul k (x, y, z) = (k * x, k * y, k * z)"

fun sdiv :: "vec3 \<Rightarrow> real \<Rightarrow> vec3" where
  "sdiv (x, y, z) k = (x / k, y / k, z / k)"

fun dot :: "vec3 \<Rightarrow> vec3 \<Rightarrow> real" where
  "dot (a, b, c) (x, y, z) = a * x + b * y + c * z"

definition norm3 :: "vec3 \<Rightarrow> real" where
  \<comment> \<open>\<open>np.linalg.norm\<close> of one row\<close>
  "norm3 v = sqrt (dot v v)"

datatype error =
    TrackingOff    \<comment> \<open>\<open>Exception("track_position_history is not turned on")\<close>\<close>
  | AttributeError
  | IndexError
  | ValueError
  | TypeError
  | NonFinite      \<comment> \<open>not an exception of the program: the mark that velocity and position
                       have become \<open>inf\<close> or \<open>NaN\<close> (the program carries on with them)\<close>

text \<open>
  Indexing an array of \<open>n\<close> rows with a Python integer: a negative index counts from
  the end, anything outside \<open>[-n, n)\<close> raises \<open>IndexError\<close>.
\<close>

definition py_index :: "nat \<Rightarrow> int \<Rightarrow> nat option" where
  "py_index n i =
     (if 0 \<le> i \<and> i < int n then Some (nat i)
      else if - int n \<le> i \<and> i < 0 then Some (nat (int n + i))
      else None)"

definition getitem :: "'a list \<Rightarrow> int \<Rightarrow> error + 'a" where
  "getitem arr i = (case py_index (length arr) i of None \<Rightarrow> Inl IndexError | Some k \<Rightarrow> Inr (arr ! k))"

definition setitem :: "'a list \<Rightarrow> int \<Rightarrow> 'a \<Rightarrow> error + 'a list" where
  "setitem arr i v =
     (case py_index (length arr) i of None \<Rightarrow> Inl IndexError | Some k \<Rightarrow> Inr (arr[k := v]))"

fun fancy_index :: "'a list \<Rightarrow> int list \<Rightarrow> error + 'a list" where
  \<comment> \<open>\<open>arr[indices]\<close> with an integer array of indices\<close>
  "fancy_index arr [] = Inr []"
| "fancy_index arr (i # is) =
     (case getitem arr i of
        Inl e \<Rightarrow> Inl e
      | Inr x \<Rightarrow> (case fancy_index arr is of Inl e \<Rightarrow> Inl e | Inr xs \<Rightarrow> Inr (x # xs)))"

definition slice_bound :: "nat \<Rightarrow> int \<Rightarrow> nat" where
  \<comment> \<open>where a slice bound \<open>k\<close> falls in an array of \<open>n\<close> rows\<close>
  "slice_bound n k = (if k < 0 then nat (max 0 (int n + k)) else min n (nat k))"

definition clip :: "real \<Rightarrow> real \<Rightarrow> real \<Rightarrow> real" where
  \<comment> \<open>\<open>np.clip(x, lo, hi)\<close> is \<open>minimum(maximum(x, lo), hi)\<close>\<close>
  "clip x lo hi = min (max x lo) hi"

definition astype_int :: "real \<Rightarrow> int" where
  \<comment> \<open>\<open>.astype(int)\<close> truncates toward zero\<close>
  "astype_int x = (if 0 \<le> x then \<lfloor>x\<rfloor> else \<lceil>x\<rceil>)"

definition isclose :: "real \<Rightarrow> real \<Rightarrow> bool" where
  \<comment> \<open>\<open>np.isclose\<close> with its defaults \<open>rtol = 1e-05\<close>, \<open>atol = 1e-08\<close>\<close>
  "isclose a b = (\<bar>a - b\<bar> \<le> 1 / 10 ^ 8 + (1 / 10 ^ 5) * \<bar>b\<bar>)"

fun isclose_all :: "vec3 \<Rightarrow> vec3 \<Rightarrow> bool" where
  \<comment> \<open>\<open>np.isclose(p, q).all()\<close>\<close>
  "isclose_all (a, b, c) (x, y, z) = (isclose a x \<and> isclose b y \<and> isclose c z)"

section \<open>ChargedParticle (objects/particles.py)\<close>

text \<open>
  The three attributes \<open>position_history\<close>, \<open>acceleration_history\<close> and
  \<open>history_index\<close> are created together by \<open>init_clock\<close> when history tracking is on
  and are absent otherwise; the field \<open>hist\<close> is \<open>None\<close> when they are absent.
  \<open>center\<close> is what \<open>get_center()\<close> returns, \<open>sphere_radius\<close> what
  \<open>sphere.get_radius()\<close> returns: the radius the framework's \<open>TrueDot\<close> keeps of the one
  it is given (it stores a float32; that rounding is not modelled, and nothing below
  depends on the stored value being the given one). \<open>updaters\<close> are the closures registered
  by \<open>add_force\<close>, each with the \<open>espf\<close> it captured. \<open>fix_x\<close>, \<open>scale\<close> and the attributes
  that only style the drawing are not modelled.
\<close>

record history =
  position_history :: "vec3 list"
  acceleration_history :: "vec3 list"
  history_index :: int

record particle =
  charge :: real
  mass :: real
  sphere_radius :: real
  center :: vec3
  track_position_history :: bool
  history_size :: int
  velocity :: vec3
  euler_steps_per_frame :: int
  time :: real
  time_step :: real
  recent_positions :: "vec3 \<times> vec3 \<times> vec3"
  hist :: "history option"
  updaters :: "(int \<times> (vec3 \<Rightarrow> vec3)) list"

definition init_clock :: "particle \<Rightarrow> vec3 \<Rightarrow> error + particle" where
  \<comment> \<open>\<open>np.zeros((history_size, 3))\<close> raises \<open>ValueError\<close> on a negative size;
      \<open>start_point\<close> is a float array, so \<open>recent_positions\<close> is one too\<close>
  "init_clock self start_point =
     (let self1 = self\<lparr>time := 0, time_step := 1 / 30,
                        recent_positions := (start_point, start_point, start_point)\<rparr>
      in if track_position_history self1
         then (if history_size self1 < 0 then Inl ValueError
               else Inr (self1\<lparr>hist := Some
                 \<lparr>position_history = replicate (nat (history_size self1)) zeros3,
                  acceleration_history = replicate (nat (history_size self1)) zeros3,
                  history_index = - 1\<rparr>\<rparr>))
         else Inr self1)"

definition ChargedParticle_init ::
  "vec3 \<Rightarrow> real \<Rightarrow> real \<Rightarrow> real \<Rightarrow> bool \<Rightarrow> int \<Rightarrow> int \<Rightarrow> error + particle" where
  \<comment> \<open>\<open>__init__(point, charge, mass, radius, track_position_history, history_size,
      euler_steps_per_frame)\<close>; the arguments that only style the drawing are left out\<close>
  "ChargedParticle_init point q m radius track hsize espf =
     init_clock
       \<lparr>charge = q, mass = m, sphere_radius = radius, center = point,
        track_position_history = track, history_size = hsize, velocity = zeros3,
        euler_steps_per_frame = espf, time = 0, time_step = 0,
        recent_positions = (zeros3, zeros3, zeros3), hist = None, updaters = []\<rparr>
       point"

definition get_acceleration :: "particle \<Rightarrow> vec3" where
  \<comment> \<open>the sums and the quotient are exact here and rounded in the program\<close>
  "get_acceleration self =
     (case recent_positions self of (p0, p1, p2) \<Rightarrow>
        if isclose_all p0 p1 \<or> isclose_all p1 p2 then zeros3
        else sdiv (vsub (vadd p0 p2) (smul 2 p1)) ((time_step self)\<^sup>2))"

definition shift_history :: "vec3 list \<Rightarrow> int \<Rightarrow> error + vec3 list" where
  \<comment> \<open>\<open>arr[:hist_size // 2, :] = arr[hist_size // 2:, :]\<close>: the rows copied must be as
      many as the rows written, or a single row (broadcast); otherwise \<open>ValueError\<close>\<close>
  "shift_history arr hist_size =
     (let k = slice_bound (length arr) (hist_size div 2);
          src = drop k arr
      in if length src = k then Inr (src @ drop k arr)
         else if length src = 1 then Inr (replicate k (hd src) @ drop k arr)
         else Inl ValueError)"

definition add_to_position_history :: "particle \<Rightarrow> error + particle" where
  "add_to_position_history self =
     (case hist self of
        None \<Rightarrow> Inl AttributeError
      | Some h \<Rightarrow>
          let i1 = history_index h + 1;
              hist_size = history_size self
          in (case (if i1 \<ge> hist_size
                   then (case shift_history (position_history h) hist_size of
                           Inl e \<Rightarrow> Inl e
                         | Inr ph \<Rightarrow>
                            (case shift_history (acceleration_history h) hist_size of
                               Inl e \<Rightarrow> Inl e
                             | Inr ah \<Rightarrow> Inr (ph, ah, hist_size div 2 + 1)))
                   else Inr (position_history h, acceleration_history h, i1)) of
               Inl e \<Rightarrow> Inl e
             | Inr (ph, ah, i2) \<Rightarrow>
                (case setitem ph i2 (center self) of
                   Inl e \<Rightarrow> Inl e
                 | Inr ph' \<Rightarrow>
                    (case setitem ah i2 (get_acceleration self) of
                       Inl e \<Rightarrow> Inl e
                     | Inr ah' \<Rightarrow>
                        Inr (self\<lparr>hist := Some (h\<lparr>position_history := ph',
                                 acceleration_history := ah', history_index := i2\<rparr>)\<rparr>)))))"

definition increment_clock :: "particle \<Rightarrow> real \<Rightarrow> error + particle" where
  "increment_clock self dt =
     (if dt = 0 then Inr self
      else (case recent_positions self of (p0, p1, p2) \<Rightarrow>
        let self1 = self\<lparr>time := time self + dt, time_step := dt,
                          recent_positions := (p1, p2, center self)\<rparr>
        in if track_position_history self1 then add_to_position_history self1
           else Inr self1))"

definition get_info_from_delays :: "particle \<Rightarrow> vec3 list \<Rightarrow> real list \<Rightarrow> error + vec3 list" where
  \<comment> \<open>\<open>history_index - delays / time_step\<close> is exact here and rounded in the program\<close>
  "get_info_from_delays self info_arr delays =
     (case hist self of
        None \<Rightarrow> Inl TrackingOff
      | Some h \<Rightarrow>
          if length info_arr = 0 then Inr (replicate (length delays) zeros3)
          else fancy_index info_arr
                 (map (\<lambda>d. astype_int
                        (clip (of_int (history_index h) - d / time_step self)
                              0 (of_int (history_index h))))
                      delays))"

definition get_past_acceleration :: "particle \<Rightarrow> real list \<Rightarrow> error + vec3 list" where
  \<comment> \<open>reading \<open>self.acceleration_history\<close> for the call raises \<open>AttributeError\<close> when
      the attribute is absent\<close>
  "get_past_acceleration self delays =
     (case hist self of
        None \<Rightarrow> Inl AttributeError
      | Some h \<Rightarrow> get_info_from_delays self (acceleration_history h) delays)"

definition get_past_position :: "particle \<Rightarrow> real list \<Rightarrow> error + vec3 list" where
  "get_past_position self delays =
     (case hist self of
        None \<Rightarrow> Inl AttributeError
      | Some h \<Rightarrow> get_info_from_delays self (position_history h) delays)"

subsection \<open>Force integration\<close>

text \<open>
  \<open>add_force\<close> registers the closure \<open>update_from_force\<close>, which captures
  \<open>espf = self.euler_steps_per_frame\<close> and \<open>force_func\<close>. \<open>self.shift(v)\<close> moves
  the particle, so that \<open>get_center()\<close> afterwards is the old center plus \<open>v\<close>.
  \<open>range(espf)\<close> runs \<open>nat espf\<close> times (not at all for \<open>espf \<le> 0\<close>).
  \<open>force_func(...) / self.mass\<close> with a mass of zero raises nothing: NumPy returns
  \<open>inf\<close> or \<open>NaN\<close> in every component, and velocity and position are not numbers from
  then on. The loop returns \<open>None\<close> there.
\<close>

fun euler_loop :: "nat \<Rightarrow> (vec3 \<Rightarrow> vec3) \<Rightarrow> real \<Rightarrow> int \<Rightarrow> particle \<Rightarrow> particle option" where
  "euler_loop 0 force_func dt espf self = Some self"
| "euler_loop (Suc k) force_func dt espf self =
     (if mass self = 0 then None
      else
        let acc = sdiv (force_func (center self)) (mass self);
            self1 = self\<lparr>velocity := vadd (velocity self) (sdiv (smul dt acc) (of_int espf))\<rparr>;
            self2 = self1\<lparr>center :=
                      vadd (center self1) (sdiv (smul dt (velocity self1)) (of_int espf))\<rparr>
        in euler_loop k force_func dt espf self2)"

definition update_from_force ::
  "int \<Rightarrow> (vec3 \<Rightarrow> vec3) \<Rightarrow> particle \<Rightarrow> real \<Rightarrow> particle option" where
  "update_from_force espf force_func self dt =
     (if dt = 0 then Some self else euler_loop (nat espf) force_func dt espf self)"

definition add_force :: "particle \<Rightarrow> (vec3 \<Rightarrow> vec3) \<Rightarrow> particle" where
  "add_force self force_func =
     self\<lparr>updaters := updaters self @ [(euler_steps_per_frame self, force_func)]\<rparr>"

definition add_spring_force :: "particle \<Rightarrow> real \<Rightarrow> vec3 option \<Rightarrow> particle" where
  "add_spring_force self k center_opt =
     (let c0 = (case center_opt of None \<Rightarrow> center self | Some c0 \<Rightarrow> c0)
      in add_force self (\<lambda>p. smul k (vsub c0 p)))"

fun call_updaters :: "(int \<times> (vec3 \<Rightarrow> vec3)) list \<Rightarrow> real \<Rightarrow> particle \<Rightarrow> particle option" where
  "call_updaters [] dt self = Some self"
| "call_updaters ((espf, force_func) # us) dt self =
     (case update_from_force espf force_func self dt of
        None \<Rightarrow> None
      | Some self' \<Rightarrow> call_updaters us dt self')"

definition run_updaters :: "particle \<Rightarrow> real \<Rightarrow> particle option" where
  \<comment> \<open>the framework's \<open>Mobject.update\<close>: every registered updater is called with \<open>dt\<close>,
      in the order of registration (while updating is suspended none is called, and the
      particle is then as it is after \<open>dt = 0\<close>)\<close>
  "run_updaters self dt = call_updaters (updaters self) dt self"

definition update :: "particle \<Rightarrow> real \<Rightarrow> error + particle" where
  "update self dt =
     (case run_updaters self dt of
        None \<Rightarrow> Inl NonFinite
      | Some self' \<Rightarrow> increment_clock self' dt)"

definition ignore_last_motion :: "particle \<Rightarrow> particle" where
  "ignore_last_motion self =
     self\<lparr>recent_positions := (center self, center self, center self)\<rparr>"

definition get_radius :: "particle \<Rightarrow> real" where
  "get_radius self = sphere_radius self"

definition get_charge :: "particle \<Rightarrow> real" where
  "get_charge self = charge self"

section \<open>Forces (utils/forces.py)\<close>

text \<open>
  An adjusted distance is a positive real or \<open>np.inf\<close>. Squaring and scaling by a
  constant keep \<open>np.inf\<close> infinite, and a finite vector divided by it is the zero
  vector. (Scaling \<open>np.inf\<close> by a constant that is zero would give NaN: the
  constant \<open>4\<pi>\<epsilon>\<^sub>0c\<^sup>2\<close> is taken nonzero wherever that matters.)
\<close>

datatype xreal = Fin real | PInf

fun xsquare :: "xreal \<Rightarrow> xreal" where
  "xsquare (Fin a) = Fin (a\<^sup>2)"
| "xsquare PInf = PInf"

fun xscale :: "real \<Rightarrow> xreal \<Rightarrow> xreal" where
  "xscale k (Fin a) = Fin (k * a)"
| "xscale k PInf = PInf"

fun xdiv :: "vec3 \<Rightarrow> xreal \<Rightarrow> vec3" where
  "xdiv v (Fin a) = sdiv v a"
| "xdiv v PInf = zeros3"

definition unit_diff :: "vec3 \<Rightarrow> real \<Rightarrow> vec3" where
  \<comment> \<open>\<open>np.true_divide(diffs, norms, out=zeros, where=(norms > 0))\<close>, one row\<close>
  "unit_diff d n = (if n > 0 then sdiv d n else zeros3)"

definition adjusted_norm :: "real \<Rightarrow> real \<Rightarrow> xreal" where
  \<comment> \<open>\<open>adjusted_norms[mask] = radius * radius / norms[mask]\<close>, then
      \<open>adjusted_norms[norms == 0] = np.inf\<close>, one row\<close>
  "adjusted_norm radius n =
     (if n = 0 then PInf
      else if 0 < n \<and> n < radius then Fin (radius * radius / n)
      else Fin n)"

definition points_to_particle_info ::
  "particle \<Rightarrow> vec3 list \<Rightarrow> real option \<Rightarrow> real \<Rightarrow> error + (vec3 list \<times> real list \<times> xreal list)" where
  "points_to_particle_info p points radius_opt c =
     (let radius = (case radius_opt of None \<Rightarrow> get_radius p | Some r \<Rightarrow> r)
      in case (if track_position_history p
               then get_past_position p (map (\<lambda>x. norm3 (vsub x (center p)) / c) points)
               else Inr (map (\<lambda>x. center p) points)) of
           Inl e \<Rightarrow> Inl e
         | Inr centers \<Rightarrow>
             let diffs = map2 vsub points centers;
                 norms = map norm3 diffs;
                 unit_diffs = map2 unit_diff diffs norms;
                 adjusted_norms = map (adjusted_norm radius) norms
             in Inr (unit_diffs, norms, adjusted_norms))"

definition coulomb_force :: "vec3 list \<Rightarrow> particle \<Rightarrow> real option \<Rightarrow> error + vec3 list" where
  \<comment> \<open>\<open>points_to_particle_info\<close> is called without \<open>c\<close>: its default \<open>2.0\<close> applies\<close>
  "coulomb_force points p radius_opt =
     (case points_to_particle_info p points radius_opt 2 of
        Inl e \<Rightarrow> Inl e
      | Inr (unit_diffs, norms, adjusted_norms) \<Rightarrow>
          Inr (map2 (\<lambda>u a. xdiv (smul (get_charge p) u) (xsquare a)) unit_diffs adjusted_norms))"

definition lorentz_force ::
  "vec3 list \<Rightarrow> particle \<Rightarrow> real option \<Rightarrow> real \<Rightarrow> real \<Rightarrow> error + vec3 list" where
  "lorentz_force points p radius_opt c epsilon0 =
     (case points_to_particle_info p points radius_opt c of
        Inl e \<Rightarrow> Inl e
      | Inr (unit_diffs, norms, adjusted_norms) \<Rightarrow>
          let delays = map (\<lambda>n. n / c) norms
          in (case get_past_acceleration p delays of
               Inl e \<Rightarrow> Inl e
             | Inr acceleration \<Rightarrow>
                 let dot_prods = map2 dot unit_diffs acceleration;
                     a_perp = map2 (\<lambda>a (dp, u). vsub a (smul dp u))
                                acceleration (zip dot_prods unit_diffs);
                     denom = map (xscale (4 * pi * epsilon0 * c\<^sup>2)) adjusted_norms
                 in Inr (map2 (\<lambda>ap dn. xdiv (smul (- get_charge p) ap) dn) a_perp denom)))"

section \<open>Fields (objects/fields.py)\<close>

text \<open>
  \<open>get_forces\<close> is Python's built-in \<open>sum\<close> over a generator: it starts from the
  integer \<open>0\<close> and adds one force array per charge, in order; an exception raised
  while a charge's force is computed ends the sum. Every array added has one row per point.
\<close>

datatype py_value = PyInt int | NdArray "vec3 list"

fun py_add :: "py_value \<Rightarrow> vec3 list \<Rightarrow> py_value" where
  "py_add (PyInt k) arr = NdArray (map (\<lambda>(x, y, z). (of_int k + x, of_int k + y, of_int k + z)) arr)"
| "py_add (NdArray acc) arr = NdArray (map2 vadd acc arr)"

fun py_sum :: "(particle \<Rightarrow> error + vec3 list) \<Rightarrow> py_value \<Rightarrow> particle list \<Rightarrow> error + py_value" where
  "py_sum f acc [] = Inr acc"
| "py_sum f acc (ch # chs) =
     (case f ch of Inl e \<Rightarrow> Inl e | Inr arr \<Rightarrow> py_sum f (py_add acc arr) chs)"

record charge_based_vector_field =
  charges :: "particle list"

record lorentz_field = charge_based_vector_field +
  radius_of_suppression :: "real option"
  speed_c :: real

definition ChargeBasedVectorField_get_forces :: "charge_based_vector_field \<Rightarrow> vec3 list \<Rightarrow> vec3 list" where
  \<comment> \<open>the base class: \<open>np.zeros_like(points)\<close>\<close>
  "ChargeBasedVectorField_get_forces fld points = map (\<lambda>x. zeros3) points"

definition CoulombField_get_forces :: "charge_based_vector_field \<Rightarrow> vec3 list \<Rightarrow> error + py_value" where
  "CoulombField_get_forces fld points =
     py_sum (\<lambda>ch. coulomb_force points ch None) (PyInt 0) (charges fld)"

definition LorentzField_get_forces :: "lorentz_field \<Rightarrow> vec3 list \<Rightarrow> error + py_value" where
  \<comment> \<open>\<open>epsilon0\<close> is not passed: the default \<open>0.025\<close> of \<open>lorentz_force\<close> applies\<close>
  "LorentzField_get_forces fld points =
     py_sum (\<lambda>ch. lorentz_force points ch (radius_of_suppression fld) (speed_c fld) (25 / 1000))
       (PyInt 0) (charges fld)"

definition field_force :: "real \<Rightarrow> (vec3 list \<Rightarrow> error + py_value) \<Rightarrow> vec3 \<Rightarrow> error + vec3" where
  \<comment> \<open>the closure of \<open>add_field_force\<close>: \<open>charge * field.get_forces([p])[0]\<close>;
      subscripting an \<open>int\<close> raises \<open>TypeError\<close>\<close>
  "field_force q get_forces x =
     (case get_forces [x] of
        Inl e \<Rightarrow> Inl e
      | Inr (PyInt k) \<Rightarrow> Inl TypeError
      | Inr (NdArray rows) \<Rightarrow>
          (case getitem rows 0 of Inl e \<Rightarrow> Inl e | Inr row \<Rightarrow> Inr (smul q row)))"

section \<open>The frame driver, and the specification's integrator step\<close>

text \<open>
  Between two frames the particle is moved (by its force updaters or by the scene) and
  \<open>update(dt)\<close> then calls \<open>increment_clock(dt)\<close>. \<open>record_positions\<close> runs this for
  a list of successive centers with one time step \<open>dt\<close>, stopping at the first exception.
\<close>

fun record_positions :: "particle \<Rightarrow> real \<Rightarrow> vec3 list \<Rightarrow> error + particle" where
  "record_positions s dt [] = Inr s"
| "record_positions s dt (c # cs) =
     (case increment_clock (s\<lparr>center := c\<rparr>) dt of
        Inl e \<Rightarrow> Inl e
      | Inr s' \<Rightarrow> record_positions s' dt cs)"

text \<open>
  The particle that \<open>ChargedParticle(point, track_position_history=track,
  history_size=hsize)\<close> constructs with the other arguments at their defaults
  (\<open>charge=1.0\<close>, \<open>mass=1.0\<close>, \<open>radius=0.2\<close>, \<open>euler_steps_per_frame=10\<close>); see
  \<open>new_particle_init\<close> below.
\<close>

definition new_particle :: "vec3 \<Rightarrow> bool \<Rightarrow> int \<Rightarrow> particle" where
  "new_particle point track hsize =
     \<lparr>charge = 1, mass = 1, sphere_radius = 1 / 5, center = point,
      track_position_history = track, history_size = hsize, velocity = zeros3,
      euler_steps_per_frame = 10, time = 0, time_step = 1 / 30,
      recent_positions = (point, point, point),
      hist = (if track
              then Some \<lparr>position_history = replicate (nat hsize) zeros3,
                         acceleration_history = replicate (nat hsize) zeros3,
                         history_index = - 1\<rparr>
              else None),
      updaters = []\<rparr>"

text \<open>
  The integrator step in the specification's words: evaluate the force at the current
  center, add \<open>(force / mass) \<sqdot> h\<close> to the velocity, then shift the position by the
  updated velocity times \<open>h\<close>, where \<open>h = dt / sub_steps\<close>.
\<close>

definition semi_implicit_step :: "(vec3 \<Rightarrow> vec3) \<Rightarrow> real \<Rightarrow> particle \<Rightarrow> particle" where
  "semi_implicit_step force_fn h self =
     (let force = force_fn (center self);
          v = vadd (velocity self) (smul h (sdiv force (mass self)))
      in self\<lparr>velocity := v, center := vadd (center self) (smul h v)\<rparr>)"

section \<open>Reachable particles and the history invariant\<close>

text \<open>
  \<open>constructed track p\<close>: the particle \<open>p\<close> was built by the constructor with
  \<open>track_position_history = track\<close> and has since gone through any number of frames
  that raised nothing (\<open>update\<close>, or \<open>increment_clock\<close> called directly), moves,
  \<open>add_force\<close> and \<open>ignore_last_motion\<close> calls.
\<close>

inductive constructed :: "bool \<Rightarrow> particle \<Rightarrow> bool" where
  init: "ChargedParticle_init point q m radius track hsize espf = Inr p \<Longrightarrow> constructed track p"
| frame: "constructed track p \<Longrightarrow> update p dt = Inr p' \<Longrightarrow> constructed track p'"
| clock: "constructed track p \<Longrightarrow> increment_clock p dt = Inr p' \<Longrightarrow> constructed track p'"
| moved: "constructed track p \<Longrightarrow> constructed track (p\<lparr>center := c\<rparr>)"
| force: "constructed track p \<Longrightarrow> constructed track (add_force p f)"
| ignored: "constructed track p \<Longrightarrow> constructed track (ignore_last_motion p)"

text \<open>
  What every such particle satisfies: the history attributes exist exactly when tracking
  is on, the time step is not zero, both arrays have the same length, and the index is
  \<open>-1\<close> (nothing recorded) or a row of the arrays.
\<close>

definition history_inv :: "bool \<Rightarrow> particle \<Rightarrow> bool" where
  "history_inv track s =
     (track_position_history s = track \<and> time_step s \<noteq> 0 \<and>
      (case hist s of
         None \<Rightarrow> \<not> track
       | Some h \<Rightarrow> track \<and> 0 \<le> history_size s
                  \<and> length (acceleration_history h) = length (position_history h)
                  \<and> - 1 \<le> history_index h
                  \<and> history_index h < int (length (position_history h))))"

text \<open>
  A tracking particle of capacity \<open>4\<close> after three frames of time step \<open>1/2\<close> at the
  centers \<open>(1,0,0)\<close>, \<open>(2,0,0)\<close>, \<open>(3,0,0)\<close>; see \<open>three_frames_recorded\<close> below.
\<close>

definition three_frames :: particle where
  "three_frames =
     projr (record_positions (new_particle zeros3 True 4) (1 / 2)
              [(1, 0, 0), (2, 0, 0), (3, 0, 0)])"

section \<open>The force formulas, row by row\<close>

text \<open>
  \<open>source_positions\<close> is the first step of \<open>points_to_particle_info\<close> on its own: the
  source position used for each point, which is the current center for a particle without
  history and otherwise the recorded position at the delay \<open>|x - center| / c\<close>.
\<close>

definition source_positions :: "particle \<Rightarrow> real \<Rightarrow> vec3 list \<Rightarrow> error + vec3 list" where
  "source_positions p c points =
     (if track_position_history p
      then get_past_position p (map (\<lambda>x. norm3 (vsub x (center p)) / c) points)
      else Inr (map (\<lambda>x. center p) points))"

text \<open>
  What \<open>coulomb_force\<close> and \<open>lorentz_force\<close> compute for one point \<open>x\<close>, given the source
  position \<open>s\<close> (and the looked-up acceleration \<open>acc\<close>): the array code of the source,
  read for a single row.
\<close>

definition coulomb_row :: "real \<Rightarrow> real \<Rightarrow> vec3 \<Rightarrow> vec3 \<Rightarrow> vec3" where
  "coulomb_row q radius x s =
     (let d = vsub x s; n = norm3 d
      in xdiv (smul q (unit_diff d n)) (xsquare (adjusted_norm radius n)))"

definition radiation_row ::
  "real \<Rightarrow> real \<Rightarrow> real \<Rightarrow> real \<Rightarrow> vec3 \<Rightarrow> vec3 \<Rightarrow> vec3 \<Rightarrow> vec3" where
  "radiation_row q radius c epsilon0 x s acc =
     (let d = vsub x s; n = norm3 d; u = unit_diff d n
      in xdiv (smul (- q) (vsub acc (smul (dot u acc) u)))
              (xscale (4 * pi * epsilon0 * c\<^sup>2) (adjusted_norm radius n)))"

text \<open>
  The Coulomb force in the specification's words: \<open>q \<sqdot> u / a\<^sup>2\<close> with \<open>u\<close> the unit vector
  from the source position to the point and \<open>a\<close> the distance \<open>d\<close> when \<open>d \<ge> r\<close> and
  \<open>r\<^sup>2 / d\<close> when \<open>0 < d < r\<close>; the zero vector at \<open>d = 0\<close>.
\<close>

definition spec_coulomb :: "real \<Rightarrow> real \<Rightarrow> vec3 \<Rightarrow> vec3 \<Rightarrow> vec3" where
  "spec_coulomb q r s x =
     (let d = norm3 (vsub x s);
          u = sdiv (vsub x s) d
      in if d = 0 then zeros3
         else if d < r then sdiv (smul q u) ((r\<^sup>2 / d)\<^sup>2)
         else sdiv (smul q u) (d\<^sup>2))"

text \<open>
  The radiation force in the specification's words, for an acceleration \<open>acc\<close> already
  looked up: the component of \<open>acc\<close> along the line of sight is discarded and the force is
  \<open>- q \<sqdot> perp / (4 \<pi> \<epsilon>\<^sub>0 c\<^sup>2 a)\<close>, linear in the adjusted distance \<open>a\<close>; the zero
  vector at \<open>d = 0\<close>.
\<close>

definition spec_radiation ::
  "real \<Rightarrow> real \<Rightarrow> real \<Rightarrow> real \<Rightarrow> vec3 \<Rightarrow> vec3 \<Rightarrow> vec3 \<Rightarrow> vec3" where
  "spec_radiation q r c epsilon0 s acc x =
     (let d = norm3 (vsub x s);
          u = sdiv (vsub x s) d;
          perp = vsub acc (smul (dot u acc) u);
          a = (if d < r then r\<^sup>2 / d else d)
      in if d = 0 then zeros3
         else sdiv (smul (- q) perp) (4 * pi * epsilon0 * c\<^sup>2 * a))"

text \<open>
  A tracking particle of capacity \<open>4\<close> that starts at \<open>(0,6,0)\<close> and is recorded at
  \<open>(0,4,0)\<close>, \<open>(0,1,0)\<close>, \<open>(0,0,0)\<close>, \<open>(0,0,0)\<close> with time step \<open>1\<close>: it brakes to
  rest at the origin, and its recorded accelerations differ from frame to frame; see
  \<open>braking_particle_hist\<close> below.
\<close>

definition braking_particle :: particle where
  "braking_particle =
     projr (record_positions (new_particle (0, 6, 0) True 4) 1
              [(0, 4, 0), (0, 1, 0), (0, 0, 0), (0, 0, 0)])"

section \<open>Adding field values\<close>

text \<open>
  NumPy's \<open>+\<close> on the values \<open>get_forces\<close> can return: two arrays with one row per
  point add row by row, and the integer of an empty sum is broadcast. \<open>well_shaped n v\<close>:
  \<open>v\<close> is the integer \<open>0\<close> or an array of \<open>n\<close> rows.
\<close>

fun np_add :: "py_value \<Rightarrow> py_value \<Rightarrow> py_value" where
  "np_add (PyInt j) (PyInt k) = PyInt (j + k)"
| "np_add (PyInt j) (NdArray b) = py_add (PyInt j) b"
| "np_add (NdArray a) (PyInt k) = py_add (PyInt k) a"
| "np_add (NdArray a) (NdArray b) = NdArray (map2 vadd a b)"

definition well_shaped :: "nat \<Rightarrow> py_value \<Rightarrow> bool" where
  "well_shaped n v = (case v of PyInt k \<Rightarrow> k = 0 | NdArray a \<Rightarrow> length a = n)"


section \<open>Properties of the particle\<close>

lemma new_particle_init:
  "(track \<longrightarrow> 0 \<le> hsize) \<Longrightarrow>
   ChargedParticle_init point 1 1 (1 / 5) track hsize 10 = Inr (new_particle point track hsize)"
  by (auto simp: ChargedParticle_init_def init_clock_def new_particle_def Let_def)

subsection \<open>The paused frame\<close>

lemma call_updaters_zero: "call_updaters us 0 p = Some p"
  by (induction us arbitrary: p) (auto simp: update_from_force_def)

text \<open>
  C7. \<open>update\<close> with \<open>dt = 0\<close> returns the particle unchanged, whatever force updaters
  are registered: position, velocity, clock, time step, recent positions, both history
  arrays and the history index are all fields of the state that is returned as it was.
\<close>

theorem update_zero_dt_is_noop: "update self 0 = Inr self"
  by (simp add: update_def run_updaters_def call_updaters_zero increment_clock_def)

subsection \<open>Force integration\<close>

lemma smul_sdiv_swap: "sdiv (smul dt v) k = smul (dt / k) v"
  by (cases v) simp

lemma semi_implicit_step_mass: "mass (semi_implicit_step force_func h self) = mass self"
  by (simp add: semi_implicit_step_def Let_def)

lemma euler_loop_funpow:
  "mass self \<noteq> 0 \<Longrightarrow>
   euler_loop k force_func dt espf self =
     Some (((semi_implicit_step force_func (dt / of_int espf)) ^^ k) self)"
proof (induction k arbitrary: self)
  case 0
  show ?case by simp
next
  case (Suc k)
  have step: "semi_implicit_step force_func (dt / of_int espf) self =
      self\<lparr>velocity := vadd (velocity self)
                (sdiv (smul dt (sdiv (force_func (center self)) (mass self))) (of_int espf)),
            center := vadd (center self)
                (sdiv (smul dt (vadd (velocity self)
                   (sdiv (smul dt (sdiv (force_func (center self)) (mass self))) (of_int espf))))
                   (of_int espf))\<rparr>"
    by (simp add: semi_implicit_step_def Let_def smul_sdiv_swap)
  have m: "mass (semi_implicit_step force_func (dt / of_int espf) self) \<noteq> 0"
    using Suc.prems by (simp add: semi_implicit_step_mass)
  have "euler_loop (Suc k) force_func dt espf self =
          euler_loop k force_func dt espf (semi_implicit_step force_func (dt / of_int espf) self)"
    using Suc.prems by (simp add: Let_def step)
  also have "\<dots> = Some (((semi_implicit_step force_func (dt / of_int espf)) ^^ k)
                        (semi_implicit_step force_func (dt / of_int espf) self))"
    using m by (rule Suc.IH)
  finally show ?case by (simp add: funpow_swap1)
qed

lemma euler_loop_zero_mass:
  "mass self = 0 \<Longrightarrow> 0 < k \<Longrightarrow> euler_loop k force_func dt espf self = None"
  by (cases k) simp_all

lemma euler_loop_updaters:
  "euler_loop k force_func dt espf (self\<lparr>updaters := us\<rparr>) =
     map_option (\<lambda>p. p\<lparr>updaters := us\<rparr>) (euler_loop k force_func dt espf self)"
proof (induction k arbitrary: self)
  case 0
  show ?case by simp
next
  case (Suc k)
  define v where "v = vadd (velocity self)
      (sdiv (smul dt (sdiv (force_func (center self)) (mass self))) (of_int espf))"
  define c where "c = vadd (center self) (sdiv (smul dt v) (of_int espf))"
  have sw: "self\<lparr>updaters := us, velocity := v, center := c\<rparr>
              = self\<lparr>velocity := v, center := c\<rparr>\<lparr>updaters := us\<rparr>"
    by simp
  have "euler_loop (Suc k) force_func dt espf (self\<lparr>updaters := us\<rparr>) =
          (if mass self = 0 then None
           else euler_loop k force_func dt espf (self\<lparr>updaters := us, velocity := v, center := c\<rparr>))"
    by (simp add: Let_def v_def c_def)
  also have "\<dots> = (if mass self = 0 then None
           else map_option (\<lambda>p. p\<lparr>updaters := us\<rparr>)
                  (euler_loop k force_func dt espf (self\<lparr>velocity := v, center := c\<rparr>)))"
    by (simp only: sw Suc.IH)
  also have "\<dots> = map_option (\<lambda>p. p\<lparr>updaters := us\<rparr>)
                      (euler_loop (Suc k) force_func dt espf self)"
    by (simp add: Let_def v_def c_def)
  finally show ?case .
qed

lemma semi_implicit_step_updaters:
  "semi_implicit_step force_func h (p\<lparr>updaters := us\<rparr>)
     = (semi_implicit_step force_func h p)\<lparr>updaters := us\<rparr>"
  by (simp add: semi_implicit_step_def Let_def)

lemma funpow_step_updaters:
  "((semi_implicit_step force_func h) ^^ k) (p\<lparr>updaters := us\<rparr>)
     = (((semi_implicit_step force_func h) ^^ k) p)\<lparr>updaters := us\<rparr>"
  by (induction k) (simp_all add: semi_implicit_step_updaters)

lemma funpow_step_mass: "mass (((semi_implicit_step force_func h) ^^ k) p) = mass p"
  by (induction k) (simp_all add: semi_implicit_step_mass)

lemma call_updaters_updaters:
  "call_updaters vs dt (self\<lparr>updaters := us\<rparr>) =
     map_option (\<lambda>p. p\<lparr>updaters := us\<rparr>) (call_updaters vs dt self)"
proof (induction vs arbitrary: self)
  case Nil
  show ?case by simp
next
  case (Cons v vs)
  obtain espf f where v: "v = (espf, f)" by (cases v)
  have 1: "update_from_force espf f (self\<lparr>updaters := us\<rparr>) dt =
           map_option (\<lambda>p. p\<lparr>updaters := us\<rparr>) (update_from_force espf f self dt)"
    by (simp add: update_from_force_def euler_loop_updaters)
  show ?case
  proof (cases "update_from_force espf f self dt")
    case None
    with 1 show ?thesis by (simp add: v)
  next
    case (Some s1)
    with 1 Cons.IH[of s1] show ?thesis by (simp add: v)
  qed
qed

lemma call_updaters_append:
  "call_updaters (us @ vs) dt self =
     (case call_updaters us dt self of None \<Rightarrow> None | Some p \<Rightarrow> call_updaters vs dt p)"
proof (induction us arbitrary: self)
  case Nil
  show ?case by simp
next
  case (Cons u us)
  obtain espf f where u: "u = (espf, f)" by (cases u)
  show ?case by (simp add: u Cons.IH split: option.splits)
qed

text \<open>
  C5. Let \<open>n = euler_steps_per_frame\<close> be positive, the mass positive and \<open>dt \<noteq> 0\<close>.
  After \<open>add_force(force_func)\<close>, one frame runs the updaters registered before (which
  leave the particle \<open>s\<close>) and then exactly \<open>n\<close> iterations of the specification's step
  with \<open>h = dt / n\<close> on what they left: each iteration evaluates the force at the center
  the previous iteration left, updates the velocity, and shifts the position by the
  updated velocity. \<open>update\<close> then records the particle that results.
\<close>

theorem add_force_runs_espf_sub_steps:
  assumes "dt \<noteq> 0" and "0 < euler_steps_per_frame self" and "0 < mass self"
      and "run_updaters self dt = Some s"
  shows "run_updaters (add_force self force_func) dt =
           Some (((semi_implicit_step force_func (dt / of_int (euler_steps_per_frame self)))
                    ^^ (nat (euler_steps_per_frame self)))
                 (s\<lparr>updaters := updaters self @ [(euler_steps_per_frame self, force_func)]\<rparr>))
       \<and> update (add_force self force_func) dt =
           increment_clock
             (((semi_implicit_step force_func (dt / of_int (euler_steps_per_frame self)))
                    ^^ (nat (euler_steps_per_frame self)))
                 (s\<lparr>updaters := updaters self @ [(euler_steps_per_frame self, force_func)]\<rparr>))
             dt"
proof -
  let ?n = "euler_steps_per_frame self"
  let ?us = "updaters self @ [(?n, force_func)]"
  have ms: "mass s = mass self"
  proof -
    have "call_updaters us dt p = Some p' \<Longrightarrow> mass p' = mass p" for us p p'
    proof (induction us arbitrary: p)
      case Nil
      then show ?case by simp
    next
      case (Cons u us)
      obtain espf f where u: "u = (espf, f)" by (cases u)
      from Cons.prems obtain p1 where 1: "update_from_force espf f p dt = Some p1"
        and 2: "call_updaters us dt p1 = Some p'"
        by (auto simp: u split: option.splits)
      have "mass p1 = mass p"
      proof (cases "mass p = 0")
        case True
        with 1 assms(1) show ?thesis
          by (cases "nat espf") (auto simp: update_from_force_def)
      next
        case False
        from euler_loop_funpow[OF False, of "nat espf" f dt espf] 1 have
          "p1 = p \<or> p1 = ((semi_implicit_step f (dt / of_int espf)) ^^ (nat espf)) p"
          by (auto simp: update_from_force_def split: if_splits)
        then show ?thesis by (auto simp: funpow_step_mass)
      qed
      with Cons.IH[OF 2] show ?case by simp
    qed
    with assms(4) show ?thesis unfolding run_updaters_def by blast
  qed
  have "run_updaters (add_force self force_func) dt =
          call_updaters ?us dt (self\<lparr>updaters := ?us\<rparr>)"
    by (simp add: run_updaters_def add_force_def)
  also have "\<dots> = map_option (\<lambda>p. p\<lparr>updaters := ?us\<rparr>) (call_updaters ?us dt self)"
    by (rule call_updaters_updaters)
  also have "call_updaters ?us dt self = update_from_force ?n force_func s dt"
    using assms(4) by (simp add: call_updaters_append run_updaters_def split: option.splits)
  also have "\<dots> = Some (((semi_implicit_step force_func (dt / of_int ?n)) ^^ (nat ?n)) s)"
    using assms(1,3) ms by (simp add: update_from_force_def euler_loop_funpow)
  also have "map_option (\<lambda>p. p\<lparr>updaters := ?us\<rparr>) \<dots> =
      Some (((semi_implicit_step force_func (dt / of_int ?n)) ^^ (nat ?n)) (s\<lparr>updaters := ?us\<rparr>))"
    by (simp add: funpow_step_updaters)
  finally have r: "run_updaters (add_force self force_func) dt =
      Some (((semi_implicit_step force_func (dt / of_int ?n)) ^^ (nat ?n)) (s\<lparr>updaters := ?us\<rparr>))" .
  then show ?thesis by (simp add: update_def)
qed

theorem add_force_runs_espf_sub_steps_witness:
  "(1 :: real) \<noteq> 0
   \<and> 0 < euler_steps_per_frame ((new_particle (1, 0, 0) False 7200)\<lparr>euler_steps_per_frame := 2\<rparr>)
   \<and> 0 < mass ((new_particle (1, 0, 0) False 7200)\<lparr>euler_steps_per_frame := 2\<rparr>)
   \<and> run_updaters ((new_particle (1, 0, 0) False 7200)\<lparr>euler_steps_per_frame := 2\<rparr>) 1
       = Some ((new_particle (1, 0, 0) False 7200)\<lparr>euler_steps_per_frame := 2\<rparr>)
   \<and> run_updaters
         (add_force ((new_particle (1, 0, 0) False 7200)\<lparr>euler_steps_per_frame := 2\<rparr>)
            (\<lambda>x. vsub zeros3 x)) 1
       = Some ((new_particle (1, 0, 0) False 7200)
                 \<lparr>euler_steps_per_frame := 2, velocity := (- 7 / 8, 0, 0),
                  center := (5 / 16, 0, 0), updaters := [(2, \<lambda>x. vsub zeros3 x)]\<rparr>)
   \<and> semi_implicit_step (\<lambda>x. vsub zeros3 x) 1
         ((new_particle (1, 0, 0) False 7200)
            \<lparr>euler_steps_per_frame := 2, updaters := [(2, \<lambda>x. vsub zeros3 x)]\<rparr>)
       = (new_particle (1, 0, 0) False 7200)
           \<lparr>euler_steps_per_frame := 2, velocity := (- 1, 0, 0),
            center := (0, 0, 0), updaters := [(2, \<lambda>x. vsub zeros3 x)]\<rparr>"
proof -
  let ?p = "(new_particle (1, 0, 0) False 7200)\<lparr>euler_steps_per_frame := 2\<rparr>"
  have e: "euler_steps_per_frame ?p = 2" and m: "mass ?p = 1" and u: "updaters ?p = []"
    by (simp_all add: new_particle_def)
  have r: "run_updaters ?p 1 = Some ?p"
    by (simp add: run_updaters_def u)
  have it: "((semi_implicit_step (\<lambda>x. vsub zeros3 x) (1 / of_int 2)) ^^ (nat 2))
          (?p\<lparr>updaters := [] @ [(2, \<lambda>x. vsub zeros3 x)]\<rparr>) =
        (new_particle (1, 0, 0) False 7200)
                 \<lparr>euler_steps_per_frame := 2, velocity := (- 7 / 8, 0, 0),
                  center := (5 / 16, 0, 0), updaters := [(2, \<lambda>x. vsub zeros3 x)]\<rparr>"
    by (simp add: numeral_2_eq_2 semi_implicit_step_def new_particle_def zeros3_def Let_def)
  have b: "semi_implicit_step (\<lambda>x. vsub zeros3 x) 1
         ((new_particle (1, 0, 0) False 7200)
            \<lparr>euler_steps_per_frame := 2, updaters := [(2, \<lambda>x. vsub zeros3 x)]\<rparr>)
       = (new_particle (1, 0, 0) False 7200)
           \<lparr>euler_steps_per_frame := 2, velocity := (- 1, 0, 0),
            center := (0, 0, 0), updaters := [(2, \<lambda>x. vsub zeros3 x)]\<rparr>"
    by (simp add: semi_implicit_step_def new_particle_def zeros3_def Let_def)
  from add_force_runs_espf_sub_steps [of 1 ?p ?p "\<lambda>x. vsub zeros3 x"] r
  have "run_updaters (add_force ?p (\<lambda>x. vsub zeros3 x)) 1 =
          Some (((semi_implicit_step (\<lambda>x. vsub zeros3 x) (1 / of_int 2)) ^^ (nat 2))
                 (?p\<lparr>updaters := [] @ [(2, \<lambda>x. vsub zeros3 x)]\<rparr>))"
    by (simp add: e m u)
  with it r b show ?thesis by (simp add: e m)
qed

subsection \<open>Construction\<close>

text \<open>
  C10 (as amended). The constructor validates neither the mass nor the radius: for every
  mass and every radius, zero and negative ones included, it returns a particle whenever
  the history arrays can be allocated (tracking off, or a history size that is not
  negative), and that particle's mass is the mass given. So the mass of a constructed
  particle need not be positive, and when it is zero the division by the mass in force
  integration is a division by zero: any frame with \<open>dt \<noteq> 0\<close> and at least one sub-step
  under a force leaves velocity and position non-finite.
\<close>

theorem init_accepts_any_mass_and_radius:
  "(track \<longrightarrow> 0 \<le> hsize) \<Longrightarrow>
   \<exists>p. ChargedParticle_init point q m radius track hsize espf = Inr p \<and> mass p = m
       \<and> (m = 0 \<and> dt \<noteq> 0 \<and> 0 < espf \<longrightarrow>
            update_from_force espf force_func p dt = None
          \<and> update (add_force p force_func) dt = Inl NonFinite)"
proof -
  assume a: "track \<longrightarrow> 0 \<le> hsize"
  then have "\<exists>p. ChargedParticle_init point q m radius track hsize espf = Inr p
        \<and> mass p = m \<and> euler_steps_per_frame p = espf \<and> updaters p = []"
    by (auto simp: ChargedParticle_init_def init_clock_def Let_def)
  then obtain p where p: "ChargedParticle_init point q m radius track hsize espf = Inr p"
    and mp: "mass p = m" and ep: "euler_steps_per_frame p = espf" and up: "updaters p = []"
    by blast
  have "update_from_force espf force_func p dt = None
          \<and> update (add_force p force_func) dt = Inl NonFinite"
    if z: "m = 0" "dt \<noteq> 0" "0 < espf"
  proof -
    have k: "0 < nat espf" using z(3) by simp
    have m0: "mass (add_force p force_func) = 0" using mp z(1) by (simp add: add_force_def)
    have 1: "update_from_force espf force_func p dt = None"
      using z(2) mp z(1) k by (simp add: update_from_force_def euler_loop_zero_mass)
    have 2: "update_from_force espf force_func (add_force p force_func) dt = None"
      using z(2) m0 k by (simp add: update_from_force_def euler_loop_zero_mass)
    have "run_updaters (add_force p force_func) dt = None"
      using 2 by (simp add: run_updaters_def add_force_def up ep)
    with 1 show ?thesis by (simp add: update_def)
  qed
  with p mp show ?thesis by blast
qed

theorem init_accepts_any_mass_and_radius_witness:
  "0 \<le> (7200 :: int) \<and> (1 :: real) \<noteq> 0 \<and> (0 :: int) < 10
   \<and> (\<exists>p. ChargedParticle_init zeros3 1 0 (- 1) True 7200 10 = Inr p \<and> mass p = 0
          \<and> update_from_force 10 (\<lambda>x. vsub zeros3 x) p 1 = None
          \<and> update (add_force p (\<lambda>x. vsub zeros3 x)) 1 = Inl NonFinite)"
  using init_accepts_any_mass_and_radius
          [of True 7200 zeros3 1 0 "- 1" 10 1 "\<lambda>x. vsub zeros3 x"]
  by simp

text \<open>
  C10 as stated fails: constructing a particle with mass \<open>0\<close> raises nothing and yields a
  particle whose mass is \<open>0\<close>.
\<close>

theorem init_accepts_zero_mass:
  "map_sum id mass (ChargedParticle_init zeros3 1 0 (1 / 5) True 7200 10) = Inr 0"
  by (simp add: ChargedParticle_init_def init_clock_def Let_def)

subsection \<open>The acceleration estimator\<close>

lemma add_to_position_history_frame:
  assumes "add_to_position_history s = Inr s'"
  shows "\<exists>h'. s' = s\<lparr>hist := Some h'\<rparr>"
  using assms
  by (auto simp: add_to_position_history_def Let_def
           split: option.splits sum.splits if_splits prod.splits)

lemma increment_clock_recent:
  assumes "increment_clock s dt = Inr s'" "dt \<noteq> 0" "recent_positions s = (p0, p1, p2)"
  shows "recent_positions s' = (p1, p2, center s) \<and> time_step s' = dt \<and> center s' = center s
         \<and> time s' = time s + dt"
proof (cases "track_position_history s")
  case False
  with assms show ?thesis by (auto simp: increment_clock_def Let_def)
next
  case True
  let ?s1 = "s\<lparr>time := time s + dt, time_step := dt, recent_positions := (p1, p2, center s)\<rparr>"
  from assms True have "add_to_position_history ?s1 = Inr s'"
    by (simp add: increment_clock_def Let_def)
  then obtain h' where "s' = ?s1\<lparr>hist := Some h'\<rparr>"
    using add_to_position_history_frame by blast
  then show ?thesis by simp
qed

lemma second_difference_zero:
  assumes "vsub p1 p0 = vsub p2 p1"
  shows "vsub (vadd p0 p2) (smul 2 p1) = zeros3"
proof -
  obtain a b c where p0: "p0 = (a, b, c)" by (cases p0) auto
  obtain d e f where p1: "p1 = (d, e, f)" by (cases p1) auto
  obtain g h i where p2: "p2 = (g, h, i)" by (cases p2) auto
  from assms show ?thesis unfolding p0 p1 p2 zeros3_def by simp
qed

text \<open>
  C8 (as amended). With \<open>(p0, p1, p2)\<close> the recent positions and \<open>h \<noteq> 0\<close> the time step:
  when both consecutive pairs differ beyond the tolerance of \<open>np.isclose\<close> the estimate
  is \<open>(p0 + p2 - 2 p1) / h\<^sup>2\<close>; when either pair is close it is the zero vector; and when
  the three recorded samples are exactly equally spaced it is the zero vector in both
  cases.
\<close>

theorem get_acceleration_finite_difference:
  assumes "recent_positions self = (p0, p1, p2)" and "time_step self \<noteq> 0"
  shows "(\<not> isclose_all p0 p1 \<and> \<not> isclose_all p1 p2 \<longrightarrow>
            get_acceleration self = sdiv (vsub (vadd p0 p2) (smul 2 p1)) ((time_step self)\<^sup>2))
       \<and> (isclose_all p0 p1 \<or> isclose_all p1 p2 \<longrightarrow> get_acceleration self = zeros3)
       \<and> (vsub p1 p0 = vsub p2 p1 \<longrightarrow> get_acceleration self = zeros3)"
  using assms second_difference_zero [of p1 p0 p2]
  by (auto simp: get_acceleration_def zeros3_def)

theorem get_acceleration_finite_difference_witness:
  "recent_positions ((new_particle (2, 0, 0) False 7200)
        \<lparr>time_step := 1, recent_positions := ((0, 0, 0), (1, 0, 0), (2, 0, 0))\<rparr>)
     = ((0, 0, 0), (1, 0, 0), (2, 0, 0))
   \<and> time_step ((new_particle (2, 0, 0) False 7200)
        \<lparr>time_step := 1, recent_positions := ((0, 0, 0), (1, 0, 0), (2, 0, 0))\<rparr>) \<noteq> 0
   \<and> \<not> isclose_all (0, 0, 0) (1, 0, 0) \<and> \<not> isclose_all (1, 0, 0) (2, 0, 0)
   \<and> vsub (1, 0, 0) (0, 0, 0) = vsub (2, 0, 0) (1, 0, 0)
   \<and> get_acceleration ((new_particle (2, 0, 0) False 7200)
        \<lparr>time_step := 1, recent_positions := ((0, 0, 0), (1, 0, 0), (2, 0, 0))\<rparr>) = zeros3"
  using get_acceleration_finite_difference
          [of "(new_particle (2, 0, 0) False 7200)
                 \<lparr>time_step := 1, recent_positions := ((0, 0, 0), (1, 0, 0), (2, 0, 0))\<rparr>"
              "(0, 0, 0)" "(1, 0, 0)" "(2, 0, 0)"]
  by (simp add: isclose_def zeros3_def)

text \<open>
  C8 as stated fails on the samples the program records for a particle that moves at
  constant velocity. With velocity \<open>1\<close> along \<open>x\<close>, no force, \<open>dt = 1/30\<close> and ten sub-steps
  a frame, float64 addition leaves the centers \<open>0.03333333333333333\<close>,
  \<open>0.06666666666666667\<close> and \<open>0.09999999999999994\<close> after the first three frames, that is
  \<open>4803839602528529 / 2\<^sup>5\<^sup>7\<close>, \<open>4803839602528529 / 2\<^sup>5\<^sup>6\<close> and \<open>7205759403792789 / 2\<^sup>5\<^sup>6\<close>;
  the time step is the float64 \<open>1/30\<close>, \<open>4803839602528529 / 2\<^sup>5\<^sup>7\<close>. These samples are not
  equally spaced, no pair is close, and the estimate is not the zero vector.
\<close>

theorem get_acceleration_nonzero_on_recorded_constant_velocity:
  "get_acceleration ((new_particle (7205759403792789 / 2 ^ 56, 0, 0) False 7200)
        \<lparr>time_step := 4803839602528529 / 2 ^ 57,
         recent_positions := ((4803839602528529 / 2 ^ 57, 0, 0),
                              (4803839602528529 / 2 ^ 56, 0, 0),
                              (7205759403792789 / 2 ^ 56, 0, 0))\<rparr>)
     \<noteq> zeros3"
  by (simp add: get_acceleration_def isclose_def zeros3_def)

text \<open>
  In exact arithmetic, three frames of one time step whose centers are equally spaced
  leave an estimated acceleration of exactly zero.
\<close>

lemma constant_velocity_frames_zero_acceleration:
  assumes "increment_clock (s\<lparr>center := c1\<rparr>) dt = Inr s1"
      and "increment_clock (s1\<lparr>center := c2\<rparr>) dt = Inr s2"
      and "increment_clock (s2\<lparr>center := c3\<rparr>) dt = Inr s3"
      and "dt \<noteq> 0" and "vsub c2 c1 = vsub c3 c2"
  shows "get_acceleration s3 = zeros3"
proof -
  obtain q0 q1 q2 where r: "recent_positions (s\<lparr>center := c1\<rparr>) = (q0, q1, q2)"
    by (cases "recent_positions (s\<lparr>center := c1\<rparr>)") auto
  from increment_clock_recent[OF assms(1) assms(4) r]
  have r1: "recent_positions (s1\<lparr>center := c2\<rparr>) = (q1, q2, c1)" by simp
  from increment_clock_recent[OF assms(2) assms(4) r1]
  have r2: "recent_positions (s2\<lparr>center := c3\<rparr>) = (q2, c1, c2)" by simp
  from increment_clock_recent[OF assms(3) assms(4) r2]
  have r3: "recent_positions s3 = (c1, c2, c3)" by simp
  from r3 second_difference_zero[OF assms(5)] show ?thesis
    by (simp add: get_acceleration_def zeros3_def)
qed


section \<open>Properties of the history buffer\<close>

subsection \<open>The invariant holds in every reachable particle\<close>

lemma euler_loop_frame:
  "euler_loop k f dt espf s = Some s' \<Longrightarrow> \<exists>v c. s' = s\<lparr>velocity := v, center := c\<rparr>"
proof (induction k arbitrary: s)
  case 0
  have "s = s\<lparr>velocity := velocity s, center := center s\<rparr>" by simp
  with 0 show ?case by (metis euler_loop.simps(1) option.inject)
next
  case (Suc k)
  let ?s1 = "s\<lparr>velocity := vadd (velocity s) (sdiv (smul dt (sdiv (f (center s)) (mass s))) (of_int espf)),
        center := vadd (center s) (sdiv (smul dt (vadd (velocity s) (sdiv (smul dt (sdiv (f (center s)) (mass s))) (of_int espf)))) (of_int espf))\<rparr>"
  from Suc.prems have "euler_loop k f dt espf ?s1 = Some s'"
    by (simp add: Let_def split: if_splits)
  from Suc.IH[OF this] obtain v c where "s' = ?s1\<lparr>velocity := v, center := c\<rparr>" by blast
  then have "s' = s\<lparr>velocity := v, center := c\<rparr>" by simp
  then show ?case by blast
qed

lemma update_from_force_frame:
  "update_from_force espf f s dt = Some s' \<Longrightarrow> \<exists>v c. s' = s\<lparr>velocity := v, center := c\<rparr>"
proof (cases "dt = 0")
  case True
  assume "update_from_force espf f s dt = Some s'"
  with True have "s' = s\<lparr>velocity := velocity s, center := center s\<rparr>"
    by (simp add: update_from_force_def)
  then show ?thesis by blast
next
  case False
  assume "update_from_force espf f s dt = Some s'"
  with False show ?thesis using euler_loop_frame by (simp add: update_from_force_def)
qed

lemma call_updaters_frame:
  "call_updaters us dt s = Some s' \<Longrightarrow> \<exists>v c. s' = s\<lparr>velocity := v, center := c\<rparr>"
proof (induction us arbitrary: s)
  case Nil
  then have "s' = s\<lparr>velocity := velocity s, center := center s\<rparr>" by simp
  then show ?case by blast
next
  case (Cons u us)
  obtain espf f where u: "u = (espf, f)" by (cases u)
  from Cons.prems obtain s1 where 1: "update_from_force espf f s dt = Some s1"
    and 2: "call_updaters us dt s1 = Some s'"
    by (auto simp: u split: option.splits)
  from update_from_force_frame[OF 1] obtain v c where a: "s1 = s\<lparr>velocity := v, center := c\<rparr>"
    by blast
  from Cons.IH[OF 2] obtain v' c' where "s' = s1\<lparr>velocity := v', center := c'\<rparr>" by blast
  with a have "s' = s\<lparr>velocity := v', center := c'\<rparr>" by simp
  then show ?case by blast
qed

lemma run_updaters_frame:
  "run_updaters s dt = Some s' \<Longrightarrow> \<exists>v c. s' = s\<lparr>velocity := v, center := c\<rparr>"
  unfolding run_updaters_def by (rule call_updaters_frame)

lemma update_Inr:
  "update p dt = Inr p' \<Longrightarrow>
   \<exists>v c. increment_clock (p\<lparr>velocity := v, center := c\<rparr>) dt = Inr p'"
proof -
  assume a: "update p dt = Inr p'"
  then obtain s where 1: "run_updaters p dt = Some s" and 2: "increment_clock s dt = Inr p'"
    by (auto simp: update_def split: option.splits)
  from run_updaters_frame[OF 1] 2 show ?thesis by blast
qed

lemma history_inv_moved: "history_inv track s \<Longrightarrow> history_inv track (s\<lparr>velocity := v, center := c\<rparr>)"
  by (simp add: history_inv_def split: option.splits)

lemma slice_bound_le: "slice_bound n k \<le> n"
  by (auto simp: slice_bound_def)

lemma length_shift_history:
  assumes "shift_history arr n = Inr arr'"
  shows "length arr' = length arr"
proof -
  define k where "k = slice_bound (length arr) (n div 2)"
  have "k \<le> length arr" unfolding k_def by (rule slice_bound_le)
  with assms show ?thesis
    by (auto simp: shift_history_def Let_def k_def[symmetric] split: if_splits)
qed

lemma setitem_Inr: "setitem arr i v = Inr arr' \<Longrightarrow>
    length arr' = length arr \<and> - int (length arr) \<le> i \<and> i < int (length arr)"
  by (auto simp: setitem_def py_index_def split: if_splits option.splits)

lemma history_inv_add:
  assumes "history_inv track s" "add_to_position_history s = Inr s'"
  shows "history_inv track s'"
proof -
  from assms(2) obtain h where h: "hist s = Some h"
    by (auto simp: add_to_position_history_def split: option.splits)
  from assms(1) h have tr: track and hs: "0 \<le> history_size s"
    and len: "length (acceleration_history h) = length (position_history h)"
    and lo: "- 1 \<le> history_index h"
    by (auto simp: history_inv_def)
  from assms(2) h obtain ph ah i2 ph' ah' where
      sh: "(if history_index h + 1 \<ge> history_size s
            then (case shift_history (position_history h) (history_size s) of
                           Inl e \<Rightarrow> Inl e
                         | Inr ph \<Rightarrow>
                            (case shift_history (acceleration_history h) (history_size s) of
                               Inl e \<Rightarrow> Inl e
                             | Inr ah \<Rightarrow> Inr (ph, ah, history_size s div 2 + 1)))
            else Inr (position_history h, acceleration_history h, history_index h + 1)) = Inr (ph, ah, i2)"
      and s1: "setitem ph i2 (center s) = Inr ph'"
      and s2: "setitem ah i2 (get_acceleration s) = Inr ah'"
      and s': "s' = s\<lparr>hist := Some (h\<lparr>position_history := ph', acceleration_history := ah', history_index := i2\<rparr>)\<rparr>"
    by (auto simp: add_to_position_history_def Let_def split: sum.splits prod.splits)
  from sh have lens: "length ph = length (position_history h) \<and> length ah = length (acceleration_history h)"
    and i2: "0 \<le> i2"
    using lo hs by (auto split: if_splits sum.splits dest: length_shift_history)
  from setitem_Inr[OF s1] setitem_Inr[OF s2] lens len i2 tr hs assms(1) show ?thesis
    unfolding s' by (simp add: history_inv_def)
qed

lemma history_inv_increment:
  assumes "history_inv track s" "increment_clock s dt = Inr s'"
  shows "history_inv track s'"
proof (cases "dt = 0")
  case True
  with assms show ?thesis by (simp add: increment_clock_def)
next
  case False
  obtain p0 p1 p2 where r: "recent_positions s = (p0, p1, p2)" by (cases "recent_positions s") auto
  let ?s1 = "s\<lparr>time := time s + dt, time_step := dt, recent_positions := (p1, p2, center s)\<rparr>"
  have inv1: "history_inv track ?s1" using assms(1) False by (simp add: history_inv_def split: option.splits)
  show ?thesis
  proof (cases "track_position_history s")
    case True
    with assms(2) False r have "add_to_position_history ?s1 = Inr s'"
      by (simp add: increment_clock_def Let_def)
    with inv1 show ?thesis by (rule history_inv_add)
  next
    case F: False
    with assms(2) False r have "s' = ?s1" by (simp add: increment_clock_def Let_def)
    with inv1 show ?thesis by simp
  qed
qed

lemma history_inv_init:
  "ChargedParticle_init point q m radius track hsize espf = Inr p \<Longrightarrow> history_inv track p"
  by (auto simp: ChargedParticle_init_def init_clock_def Let_def history_inv_def split: if_splits)

lemma constructed_history_inv: "constructed track p \<Longrightarrow> history_inv track p"
proof (induction rule: constructed.induct)
  case (init point q m radius track hsize espf p)
  then show ?case by (rule history_inv_init)
next
  case (frame track p dt p')
  from update_Inr[OF frame.hyps(2)] obtain v c where
    "increment_clock (p\<lparr>velocity := v, center := c\<rparr>) dt = Inr p'" by blast
  with frame.IH show ?case
    using history_inv_increment history_inv_moved by blast
next
  case (clock track p dt p')
  then show ?case using history_inv_increment by blast
next
  case (moved track p c)
  then show ?case by (simp add: history_inv_def split: option.splits)
next
  case (force track p f)
  then show ?case by (simp add: history_inv_def add_force_def split: option.splits)
next
  case (ignored track p)
  then show ?case by (simp add: history_inv_def ignore_last_motion_def split: option.splits)
qed

subsection \<open>Queries by delay\<close>

lemma getitem_nonneg: "0 \<le> i \<Longrightarrow> i < int (length arr) \<Longrightarrow> getitem arr i = Inr (arr ! nat i)"
  by (simp add: getitem_def py_index_def)

lemma getitem_last: "arr \<noteq> [] \<Longrightarrow> getitem arr (- 1) = Inr (last arr)"
  by (cases arr rule: rev_cases) (auto simp: getitem_def py_index_def nth_append)

lemma fancy_index_nonneg:
  "(\<And>i. i \<in> set idxs \<Longrightarrow> 0 \<le> i \<and> i < int (length arr)) \<Longrightarrow>
   fancy_index arr idxs = Inr (map (\<lambda>i. arr ! nat i) idxs)"
  by (induction idxs) (simp_all add: getitem_nonneg)

lemma fancy_index_last:
  "arr \<noteq> [] \<Longrightarrow> fancy_index arr (replicate n (- 1)) = Inr (replicate n (last arr))"
  by (induction n) (simp_all add: getitem_last)

lemma astype_int_clip_range:
  assumes "0 \<le> hi"
  shows "0 \<le> astype_int (clip x 0 (of_int hi)) \<and> astype_int (clip x 0 (of_int hi)) \<le> hi"
proof -
  have "0 \<le> clip x 0 (of_int hi)" and "clip x 0 (of_int hi) \<le> of_int hi"
    using assms by (auto simp: clip_def)
  then show ?thesis
    by (simp add: astype_int_def floor_le_iff le_floor_iff)
qed

lemma astype_int_clip_unrecorded: "astype_int (clip x 0 (- 1)) = - 1"
  by (simp add: clip_def astype_int_def ceiling_def)

lemma get_info_recorded:
  assumes "hist s = Some h" "0 \<le> history_index h" "history_index h < int (length arr)"
  shows "get_info_from_delays s arr delays =
           Inr (map (\<lambda>d. arr ! nat (astype_int
                   (clip (of_int (history_index h) - d / time_step s) 0 (of_int (history_index h)))))
                delays)"
proof -
  have ne: "length arr \<noteq> 0" using assms by auto
  have "fancy_index arr (map (\<lambda>d. astype_int
            (clip (of_int (history_index h) - d / time_step s) 0 (of_int (history_index h)))) delays)
        = Inr (map (\<lambda>i. arr ! nat i) (map (\<lambda>d. astype_int
            (clip (of_int (history_index h) - d / time_step s) 0 (of_int (history_index h)))) delays))"
  proof (rule fancy_index_nonneg)
    fix i assume "i \<in> set (map (\<lambda>d. astype_int
            (clip (of_int (history_index h) - d / time_step s) 0 (of_int (history_index h)))) delays)"
    then obtain d where "i = astype_int
            (clip (of_int (history_index h) - d / time_step s) 0 (of_int (history_index h)))" by auto
    with astype_int_clip_range[OF assms(2)] assms(3) show "0 \<le> i \<and> i < int (length arr)"
      by (metis le_less_trans)
  qed
  with ne assms(1) show ?thesis by (simp add: get_info_from_delays_def comp_def)
qed

lemma get_info_unrecorded:
  assumes "hist s = Some h" "history_index h = - 1"
  shows "get_info_from_delays s arr delays =
           Inr (replicate (length delays) (if arr = [] then zeros3 else last arr))"
proof (cases "arr = []")
  case True
  with assms show ?thesis by (simp add: get_info_from_delays_def)
next
  case False
  have "map (\<lambda>d. astype_int (clip (of_int (history_index h) - d / time_step s) 0
                 (of_int (history_index h)))) delays = replicate (length delays) (- 1)"
    using assms(2) by (simp add: astype_int_clip_unrecorded map_replicate_const)
  with False assms(1) show ?thesis
    by (simp add: get_info_from_delays_def fancy_index_last)
qed

lemma get_info_tracked:
  assumes "history_inv True s" "hist s = Some h" "length arr = length (position_history h)"
  shows "\<exists>rows. get_info_from_delays s arr delays = Inr rows \<and> length rows = length delays"
proof (cases "0 \<le> history_index h")
  case True
  from assms have "history_index h < int (length arr)" by (simp add: history_inv_def)
  from get_info_recorded[OF assms(2) True this] show ?thesis by simp
next
  case False
  with assms have "history_index h = - 1" by (simp add: history_inv_def)
  from get_info_unrecorded[OF assms(2) this] show ?thesis by simp
qed

text \<open>
  C9. For a particle constructed with tracking off, \<open>get_past_position\<close> and
  \<open>get_past_acceleration\<close> raise (the \<open>AttributeError\<close> of reading the missing
  history attribute, before \<open>get_info_from_delays\<close> can raise its own exception;
  called directly, \<open>get_info_from_delays\<close> raises that exception). For a particle
  constructed with tracking on they never raise and return one row per delay. On the
  particle as the constructor returns it, before any record, the rows are zero vectors.
\<close>

theorem past_queries_raise_iff_untracked:
  assumes "constructed track p"
  shows "(\<not> track \<longrightarrow> get_past_position p delays = Inl AttributeError
                    \<and> get_past_acceleration p delays = Inl AttributeError
                    \<and> get_info_from_delays p arr delays = Inl TrackingOff)
       \<and> (track \<longrightarrow> (\<exists>rows. get_past_position p delays = Inr rows \<and> length rows = length delays)
                  \<and> (\<exists>rows. get_past_acceleration p delays = Inr rows \<and> length rows = length delays))
       \<and> (ChargedParticle_init point q m radius True hsize espf = Inr p \<longrightarrow>
             get_past_position p delays = Inr (replicate (length delays) zeros3)
           \<and> get_past_acceleration p delays = Inr (replicate (length delays) zeros3))"
proof -
  have inv: "history_inv track p" using assms by (rule constructed_history_inv)
  have 1: "get_past_position p delays = Inl AttributeError
         \<and> get_past_acceleration p delays = Inl AttributeError
         \<and> get_info_from_delays p arr delays = Inl TrackingOff" if "\<not> track"
    using inv that
    by (auto simp: history_inv_def get_past_position_def get_past_acceleration_def
                   get_info_from_delays_def split: option.splits)
  have 2: "(\<exists>rows. get_past_position p delays = Inr rows \<and> length rows = length delays)
         \<and> (\<exists>rows. get_past_acceleration p delays = Inr rows \<and> length rows = length delays)" if track
  proof -
    from inv that obtain h where h: "hist p = Some h"
      and len: "length (acceleration_history h) = length (position_history h)"
      by (auto simp: history_inv_def split: option.splits)
    from inv that have inv': "history_inv True p" by simp
    show ?thesis
      using get_info_tracked[OF inv' h refl] get_info_tracked[OF inv' h len] h
      by (simp add: get_past_position_def get_past_acceleration_def)
  qed
  have 3: "get_past_position p delays = Inr (replicate (length delays) zeros3)
         \<and> get_past_acceleration p delays = Inr (replicate (length delays) zeros3)"
    if "ChargedParticle_init point q m radius True hsize espf = Inr p"
  proof -
    from that have h: "hist p = Some \<lparr>position_history = replicate (nat hsize) zeros3,
                  acceleration_history = replicate (nat hsize) zeros3,
                  history_index = - 1\<rparr>"
      by (auto simp: ChargedParticle_init_def init_clock_def Let_def split: if_splits)
    show ?thesis
      using get_info_unrecorded[OF h, of "replicate (nat hsize) zeros3" delays] h
      by (auto simp: get_past_position_def get_past_acceleration_def)
  qed
  from 1 2 3 show ?thesis by blast
qed

theorem past_queries_raise_iff_untracked_witness:
  "constructed False (new_particle zeros3 False 4)
   \<and> get_past_position (new_particle zeros3 False 4) [0, 1] = Inl AttributeError
   \<and> get_past_acceleration (new_particle zeros3 False 4) [0, 1] = Inl AttributeError
   \<and> get_info_from_delays (new_particle zeros3 False 4) [] [0, 1] = Inl TrackingOff
   \<and> constructed True (new_particle zeros3 True 4)
   \<and> ChargedParticle_init zeros3 1 1 (1 / 5) True 4 10 = Inr (new_particle zeros3 True 4)
   \<and> get_past_position (new_particle zeros3 True 4) [0, 1] = Inr [zeros3, zeros3]
   \<and> get_past_acceleration (new_particle zeros3 True 4) [0, 1] = Inr [zeros3, zeros3]"
proof -
  have i0: "ChargedParticle_init zeros3 1 1 (1 / 5) False 4 10 = Inr (new_particle zeros3 False 4)"
    by (rule new_particle_init) simp
  have i1: "ChargedParticle_init zeros3 1 1 (1 / 5) True 4 10 = Inr (new_particle zeros3 True 4)"
    by (rule new_particle_init) simp
  have c0: "constructed False (new_particle zeros3 False 4)"
    using i0 by (rule constructed.init)
  have c1: "constructed True (new_particle zeros3 True 4)"
    using i1 by (rule constructed.init)
  from past_queries_raise_iff_untracked [OF c0, of "[0, 1]" "[]"]
       past_queries_raise_iff_untracked [OF c1, of "[0, 1]" "[]" zeros3 1 1 "1 / 5" 4 10]
       c0 c1 i1
  show ?thesis by (simp add: numeral_2_eq_2)
qed


subsection \<open>Recording\<close>

lemma add_to_position_history_not_full:
  assumes "hist s = Some h"
      and "history_index h + 1 < history_size s"
      and "0 \<le> history_index h + 1"
      and "history_index h + 1 < int (length (position_history h))"
      and "length (acceleration_history h) = length (position_history h)"
  shows "add_to_position_history s =
           Inr (s\<lparr>hist := Some (h\<lparr>
                  position_history := (position_history h)[nat (history_index h + 1) := center s],
                  acceleration_history :=
                    (acceleration_history h)[nat (history_index h + 1) := get_acceleration s],
                  history_index := history_index h + 1\<rparr>)\<rparr>)"
  using assms by (simp add: add_to_position_history_def Let_def setitem_def py_index_def)

lemma record_positions_fill:
  assumes "hist s = Some h" and "track_position_history s" and "dt \<noteq> 0"
      and "history_index h = int k - 1"
      and "k + length cs \<le> length (position_history h)"
      and "history_size s = int (length (position_history h))"
      and "length (acceleration_history h) = length (position_history h)"
  shows "\<exists>s' h'. record_positions s dt cs = Inr s' \<and> hist s' = Some h'
           \<and> history_index h' = int (k + length cs) - 1
           \<and> position_history h' =
               take k (position_history h) @ cs @ drop (k + length cs) (position_history h)
           \<and> time_step s' = (if cs = [] then time_step s else dt)"
  using assms
proof (induction cs arbitrary: s h k)
  case Nil
  then show ?case by simp
next
  case (Cons c cs)
  obtain p0 p1 p2 where r: "recent_positions s = (p0, p1, p2)"
    by (cases "recent_positions s") auto
  let ?s1 = "s\<lparr>center := c, time := time s + dt, time_step := dt,
                recent_positions := (p1, p2, c)\<rparr>"
  let ?h2 = "h\<lparr>position_history := (position_history h)[k := c],
               acceleration_history := (acceleration_history h)[k := get_acceleration ?s1],
               history_index := int k\<rparr>"
  let ?s2 = "?s1\<lparr>hist := Some ?h2\<rparr>"
  have klt: "k < length (position_history h)" using Cons.prems(5) by simp
  have "add_to_position_history ?s1 = Inr ?s2"
    using add_to_position_history_not_full[of ?s1 h] Cons.prems klt by simp
  then have inc: "increment_clock (s\<lparr>center := c\<rparr>) dt = Inr ?s2"
    using Cons.prems(2,3) r by (simp add: increment_clock_def Let_def)
  have "\<exists>s' h'. record_positions ?s2 dt cs = Inr s' \<and> hist s' = Some h'
           \<and> history_index h' = int (Suc k + length cs) - 1
           \<and> position_history h' =
               take (Suc k) (position_history ?h2) @ cs @ drop (Suc k + length cs) (position_history ?h2)
           \<and> time_step s' = (if cs = [] then time_step ?s2 else dt)"
    by (rule Cons.IH) (use Cons.prems in simp_all)
  then obtain s' h' where rec: "record_positions ?s2 dt cs = Inr s'" and h': "hist s' = Some h'"
      and hi: "history_index h' = int (Suc k + length cs) - 1"
      and ph: "position_history h' =
               take (Suc k) (position_history ?h2) @ cs @ drop (Suc k + length cs) (position_history ?h2)"
      and ts: "time_step s' = (if cs = [] then time_step ?s2 else dt)"
    by blast
  have "take (Suc k) ((position_history h)[k := c]) = take k (position_history h) @ [c]"
    using klt by (simp add: take_Suc_conv_app_nth)
  with ph have ph': "position_history h' =
      take k (position_history h) @ (c # cs) @ drop (k + length (c # cs)) (position_history h)"
    by simp
  from rec inc have "record_positions s dt (c # cs) = Inr s'" by simp
  with h' hi ph' ts show ?case by auto
qed

lemma record_positions_constructed:
  "constructed track s \<Longrightarrow> record_positions s dt cs = Inr s' \<Longrightarrow> constructed track s'"
proof (induction cs arbitrary: s)
  case Nil
  then show ?case by simp
next
  case (Cons c cs)
  from Cons.prems(2) obtain s1 where 1: "increment_clock (s\<lparr>center := c\<rparr>) dt = Inr s1"
    and 2: "record_positions s1 dt cs = Inr s'"
    by (auto split: sum.splits)
  have "constructed track (s\<lparr>center := c\<rparr>)" using Cons.prems(1) by (rule constructed.moved)
  then have "constructed track s1" using 1 by (rule constructed.clock)
  then show ?case using 2 by (rule Cons.IH)
qed

lemma astype_int_of_int: "0 \<le> i \<Longrightarrow> astype_int (clip (of_int i) 0 (of_int i)) = i"
  by (simp add: astype_int_def clip_def)

lemma add_to_position_history_latest:
  assumes "add_to_position_history s = Inr s'" and "history_inv True s"
  shows "\<exists>h'. hist s' = Some h' \<and> 0 \<le> history_index h'
             \<and> history_index h' < int (length (position_history h'))
             \<and> position_history h' ! nat (history_index h') = center s
             \<and> acceleration_history h' ! nat (history_index h') = get_acceleration s"
proof -
  from assms(1) obtain h where h: "hist s = Some h"
    by (auto simp: add_to_position_history_def split: option.splits)
  from assms(2) h have hs: "0 \<le> history_size s" and lo: "- 1 \<le> history_index h"
    by (auto simp: history_inv_def)
  from assms(1) h obtain ph ah i2 ph' ah' where
      sh: "(if history_index h + 1 \<ge> history_size s
            then (case shift_history (position_history h) (history_size s) of
                           Inl e \<Rightarrow> Inl e
                         | Inr ph \<Rightarrow>
                            (case shift_history (acceleration_history h) (history_size s) of
                               Inl e \<Rightarrow> Inl e
                             | Inr ah \<Rightarrow> Inr (ph, ah, history_size s div 2 + 1)))
            else Inr (position_history h, acceleration_history h, history_index h + 1)) = Inr (ph, ah, i2)"
      and s1: "setitem ph i2 (center s) = Inr ph'"
      and s2: "setitem ah i2 (get_acceleration s) = Inr ah'"
      and s': "s' = s\<lparr>hist := Some (h\<lparr>position_history := ph', acceleration_history := ah', history_index := i2\<rparr>)\<rparr>"
    by (auto simp: add_to_position_history_def Let_def split: sum.splits prod.splits)
  from sh have i2: "0 \<le> i2" using lo hs by (auto split: if_splits sum.splits)
  from s1 i2 have a: "i2 < int (length ph') \<and> ph' ! nat i2 = center s"
    by (auto simp: setitem_def py_index_def split: if_splits)
  from s2 i2 have b: "ah' ! nat i2 = get_acceleration s"
    by (auto simp: setitem_def py_index_def split: if_splits)
  from a b i2 show ?thesis unfolding s' by simp
qed

lemma increment_clock_latest:
  assumes "increment_clock s dt = Inr s'" and "dt \<noteq> 0" and "history_inv True s"
  shows "get_past_position s' [0] = Inr [center s']"
proof -
  obtain p0 p1 p2 where r: "recent_positions s = (p0, p1, p2)"
    by (cases "recent_positions s") auto
  let ?s1 = "s\<lparr>time := time s + dt, time_step := dt, recent_positions := (p1, p2, center s)\<rparr>"
  from assms(3) have tr: "track_position_history s" by (simp add: history_inv_def)
  have inv1: "history_inv True ?s1"
    using assms(2,3) by (simp add: history_inv_def split: option.splits)
  from assms(1,2) tr r have add: "add_to_position_history ?s1 = Inr s'"
    by (simp add: increment_clock_def Let_def)
  from add_to_position_history_latest[OF add inv1] obtain h' where
    h': "hist s' = Some h'" and lo: "0 \<le> history_index h'"
    and hi: "history_index h' < int (length (position_history h'))"
    and v: "position_history h' ! nat (history_index h') = center s" by auto
  from increment_clock_recent[OF assms(1,2) r] have c: "center s' = center s" by simp
  from get_info_recorded[OF h' lo hi, of "[0]"] h' v c lo show ?thesis
    by (simp add: get_past_position_def astype_int_of_int)
qed

lemma three_frames_recorded:
  "record_positions (new_particle zeros3 True 4) (1 / 2) [(1, 0, 0), (2, 0, 0), (3, 0, 0)]
     = Inr three_frames"
proof -
  have "\<not> isl (record_positions (new_particle zeros3 True 4) (1 / 2)
                  [(1, 0, 0), (2, 0, 0), (3, 0, 0)])"
    by code_simp
  then show ?thesis unfolding three_frames_def by simp
qed

lemma three_frames_hist:
  "hist three_frames =
     Some \<lparr>position_history = [(1, 0, 0), (2, 0, 0), (3, 0, 0), (0, 0, 0)],
           acceleration_history = [(0, 0, 0), (0, 0, 0), (0, 0, 0), (0, 0, 0)],
           history_index = 2\<rparr>"
  unfolding three_frames_def by code_simp

lemma three_frames_time_step: "time_step three_frames = 1 / 2"
  unfolding three_frames_def by code_simp

lemma three_frames_constructed: "constructed True three_frames"
proof -
  have "ChargedParticle_init zeros3 1 1 (1 / 5) True 4 10 = Inr (new_particle zeros3 True 4)"
    by (rule new_particle_init) simp
  then have "constructed True (new_particle zeros3 True 4)" by (rule constructed.init)
  then show ?thesis using three_frames_recorded by (rule record_positions_constructed)
qed

text \<open>
  C4 (as amended). (1) On a reachable tracking particle with at least one recorded
  sample, \<open>get_past_position\<close> returns for each delay \<open>d\<close> the row at index
  \<open>trunc(clip(history_index - d / time_step, 0, history_index))\<close>, the continuous
  index being clamped and then truncated, never rounded to the nearest row (the
  subtraction and the division are the program's: float64 there, exact here). (2) After any frame with \<open>dt \<noteq> 0\<close> that raised nothing,
  delay \<open>0\<close> returns the current center. (3) After \<open>N \<ge> 1\<close> frames of one non-zero
  time step \<open>dt\<close> on a freshly constructed particle, with \<open>N\<close> at most the capacity,
  delay \<open>0\<close> returns the last recorded position and delay \<open>N \<sqdot> dt\<close> the first.
\<close>

theorem get_past_position_truncated_index:
  "(constructed True p \<and> hist p = Some h \<and> 0 \<le> history_index h \<longrightarrow>
      get_past_position p delays =
        Inr (map (\<lambda>d. position_history h ! nat (astype_int
                  (clip (of_int (history_index h) - d / time_step p) 0 (of_int (history_index h)))))
             delays))
   \<and> (constructed True p \<and> dt \<noteq> 0 \<and> update p dt = Inr p' \<longrightarrow>
        get_past_position p' [0] = Inr [center p'])
   \<and> (ChargedParticle_init point q m radius True hsize espf = Inr p0 \<and> dt \<noteq> 0
        \<and> cs \<noteq> [] \<and> int (length cs) \<le> hsize \<longrightarrow>
        (\<exists>pN. record_positions p0 dt cs = Inr pN
             \<and> get_past_position pN [0] = Inr [last cs]
             \<and> get_past_position pN [of_nat (length cs) * dt] = Inr [hd cs]))"
proof (intro conjI impI)
  assume a: "constructed True p \<and> hist p = Some h \<and> 0 \<le> history_index h"
  then have inv: "history_inv True p" using constructed_history_inv by blast
  with a have hi: "history_index h < int (length (position_history h))"
    by (simp add: history_inv_def)
  from a get_info_recorded[of p h "position_history h" delays] hi
  show "get_past_position p delays =
        Inr (map (\<lambda>d. position_history h ! nat (astype_int
                  (clip (of_int (history_index h) - d / time_step p) 0 (of_int (history_index h)))))
             delays)"
    by (simp add: get_past_position_def)
next
  assume a: "constructed True p \<and> dt \<noteq> 0 \<and> update p dt = Inr p'"
  then have inv: "history_inv True p" using constructed_history_inv by blast
  from a update_Inr[of p dt p'] obtain v c where
    ic: "increment_clock (p\<lparr>velocity := v, center := c\<rparr>) dt = Inr p'" by blast
  have "history_inv True (p\<lparr>velocity := v, center := c\<rparr>)" using inv by (rule history_inv_moved)
  with a ic show "get_past_position p' [0] = Inr [center p']"
    using increment_clock_latest[of "p\<lparr>velocity := v, center := c\<rparr>" dt p'] by simp
next
  assume a: "ChargedParticle_init point q m radius True hsize espf = Inr p0 \<and> dt \<noteq> 0
        \<and> cs \<noteq> [] \<and> int (length cs) \<le> hsize"
  define ph0 where "ph0 = replicate (nat hsize) zeros3"
  define h0 where "h0 = \<lparr>position_history = ph0, acceleration_history = ph0, history_index = - 1\<rparr>"
  from a have h0: "hist p0 = Some h0" and tr: "track_position_history p0"
    and hs: "history_size p0 = hsize" and nn: "0 \<le> hsize"
    by (auto simp: ChargedParticle_init_def init_clock_def Let_def h0_def ph0_def split: if_splits)
  have "\<exists>s' h'. record_positions p0 dt cs = Inr s' \<and> hist s' = Some h'
           \<and> history_index h' = int (0 + length cs) - 1
           \<and> position_history h' =
               take 0 (position_history h0) @ cs @ drop (0 + length cs) (position_history h0)
           \<and> time_step s' = (if cs = [] then time_step p0 else dt)"
    by (rule record_positions_fill[OF h0 tr])
       (use a hs nn in \<open>auto simp: h0_def ph0_def\<close>)
  then obtain pN hN where rec: "record_positions p0 dt cs = Inr pN" and hN: "hist pN = Some hN"
    and hi: "history_index hN = int (length cs) - 1"
    and ph: "position_history hN = cs @ drop (length cs) ph0"
    and ts: "time_step pN = dt"
    using a by (auto simp: h0_def)
  have lo: "0 \<le> history_index hN" using a hi by (cases cs) auto
  have up: "history_index hN < int (length (position_history hN))" using hi ph by simp
  have i0: "astype_int (clip (of_int (history_index hN) - 0 / time_step pN) 0
                 (of_int (history_index hN))) = history_index hN"
    using lo by (simp add: astype_int_of_int)
  have iN: "astype_int (clip (of_int (history_index hN) - (of_nat (length cs) * dt) / time_step pN) 0
                 (of_int (history_index hN))) = 0"
  proof -
    have "1 \<le> length cs" using a by (cases cs) auto
    with a lo hi ts show ?thesis by (simp add: clip_def astype_int_def)
  qed
  have l: "position_history hN ! nat (history_index hN) = last cs"
  proof -
    have n: "nat (history_index hN) = length cs - 1" using hi by simp
    have "length cs - 1 < length cs" using a by (cases cs) auto
    with a ph show ?thesis unfolding n by (simp add: nth_append last_conv_nth)
  qed
  have f: "position_history hN ! 0 = hd cs"
    using a ph by (cases cs) auto
  from get_info_recorded[OF hN lo up, of "[0]"] get_info_recorded[OF hN lo up, of "[of_nat (length cs) * dt]"]
       hN i0 iN l f rec
  show "\<exists>pN. record_positions p0 dt cs = Inr pN
             \<and> get_past_position pN [0] = Inr [last cs]
             \<and> get_past_position pN [of_nat (length cs) * dt] = Inr [hd cs]"
    by (simp add: get_past_position_def)
qed

theorem get_past_position_truncated_index_witness:
  "constructed True three_frames
   \<and> hist three_frames =
       Some \<lparr>position_history = [(1, 0, 0), (2, 0, 0), (3, 0, 0), (0, 0, 0)],
             acceleration_history = [(0, 0, 0), (0, 0, 0), (0, 0, 0), (0, 0, 0)],
             history_index = 2\<rparr>
   \<and> time_step three_frames = 1 / 2
   \<and> get_past_position three_frames [0, 1 / 5, 1] = Inr [(3, 0, 0), (2, 0, 0), (1, 0, 0)]
   \<and> update three_frames (1 / 2) = Inr (projr (update three_frames (1 / 2)))
   \<and> get_past_position (projr (update three_frames (1 / 2))) [0] = Inr [(3, 0, 0)]
   \<and> ChargedParticle_init zeros3 1 1 (1 / 5) True 4 10 = Inr (new_particle zeros3 True 4)
   \<and> (\<exists>pN. record_positions (new_particle zeros3 True 4) (1 / 2)
                 [(1, 0, 0), (2, 0, 0), (3, 0, 0)] = Inr pN
            \<and> get_past_position pN [0] = Inr [(3, 0, 0)]
            \<and> get_past_position pN [3 * (1 / 2)] = Inr [(1, 0, 0)])"
proof -
  let ?H = "\<lparr>position_history = [(1, 0, 0), (2, 0, 0), (3, 0, 0), (0 :: real, 0 :: real, 0 :: real)],
             acceleration_history = [(0, 0, 0), (0, 0, 0), (0, 0, 0), (0 :: real, 0 :: real, 0 :: real)],
             history_index = 2\<rparr>"
  let ?P' = "projr (update three_frames (1 / 2))"
  have i: "ChargedParticle_init zeros3 1 1 (1 / 5) True 4 10 = Inr (new_particle zeros3 True 4)"
    by (rule new_particle_init) simp
  have "\<not> isl (update three_frames (1 / 2))"
    unfolding three_frames_def by code_simp
  then have u: "update three_frames (1 / 2) = Inr ?P'" by simp
  have c: "center ?P' = (3, 0, 0)"
    unfolding three_frames_def by code_simp
  have n: "nat 2 = Suc (Suc 0)" "nat 1 = Suc 0" by simp_all
  from get_past_position_truncated_index
         [where p = three_frames and h = ?H and delays = "[0, 1 / 5, 1]" and dt = "1 / 2"
            and p' = ?P' and point = zeros3 and q = 1 and m = 1 and radius = "1 / 5"
            and hsize = 4 and espf = 10 and ?p0.0 = "new_particle zeros3 True 4"
            and cs = "[(1, 0, 0), (2, 0, 0), (3, 0, 0)]"]
       three_frames_constructed three_frames_hist three_frames_time_step i u c
  show ?thesis by (simp add: n clip_def astype_int_def)
qed

text \<open>
  C4 as stated fails once the buffer has compacted: with capacity \<open>4\<close>, after \<open>N = 5\<close>
  frames of time step \<open>1\<close> at the centers \<open>(1,0,0)\<close> ... \<open>(5,0,0)\<close>, delay \<open>N \<sqdot> dt = 5\<close>
  returns the third recorded position (the oldest row kept), not the first.
\<close>

theorem delay_beyond_capacity_returns_oldest_kept:
  "map_sum id (\<lambda>p. get_past_position p [5])
     (record_positions (new_particle zeros3 True 4) 1
        [(1, 0, 0), (2, 0, 0), (3, 0, 0), (4, 0, 0), (5, 0, 0)]) = Inr (Inr [(3, 0, 0)])"
  by code_simp

subsection \<open>Compaction\<close>

text \<open>
  When a record finds an even-sized buffer of \<open>2k\<close> rows full, the upper half is copied
  to the lower half and the write goes to row \<open>k + 1\<close>: row \<open>k\<close> is skipped and keeps
  the sample it held before. The sample of the frame before, which was in the last row,
  is now in row \<open>k - 1\<close>.
\<close>

lemma compaction_skips_a_slot:
  assumes "hist s = Some h"
      and "length (position_history h) = 2 * k" and "length (acceleration_history h) = 2 * k"
      and "2 \<le> k" and "history_size s = int (2 * k)" and "history_index h = int (2 * k) - 1"
  shows "add_to_position_history s =
           Inr (s\<lparr>hist := Some (h\<lparr>
                  position_history :=
                    (drop k (position_history h) @ drop k (position_history h))[Suc k := center s],
                  acceleration_history :=
                    (drop k (acceleration_history h) @ drop k (acceleration_history h))
                      [Suc k := get_acceleration s],
                  history_index := int k + 1\<rparr>)\<rparr>)"
proof -
  have sb: "slice_bound (2 * k) (int k) = k"
    by (simp add: slice_bound_def)
  have 1: "shift_history (position_history h) (int (2 * k)) =
             Inr (drop k (position_history h) @ drop k (position_history h))"
    using assms(2) by (simp add: shift_history_def Let_def sb)
  have 2: "shift_history (acceleration_history h) (int (2 * k)) =
             Inr (drop k (acceleration_history h) @ drop k (acceleration_history h))"
    using assms(3) by (simp add: shift_history_def Let_def sb)
  have 3: "nat (int k + 1) = Suc k" by simp
  show ?thesis
    using assms 1 2
    by (simp add: add_to_position_history_def Let_def setitem_def py_index_def 3 nat_add_distrib)
qed

lemma stale_slot_after_compaction:
  assumes "hist s = Some h"
      and "length (position_history h) = 2 * k" and "length (acceleration_history h) = 2 * k"
      and "2 \<le> k" and "history_size s = int (2 * k)" and "history_index h = int (2 * k) - 1"
      and "track_position_history s" and "dt \<noteq> 0"
  shows "\<exists>s'. increment_clock s dt = Inr s'
            \<and> get_past_position s' [0, dt, 2 * dt] =
                Inr [center s, position_history h ! k, position_history h ! (2 * k - 1)]"
proof -
  obtain p0 p1 p2 where r: "recent_positions s = (p0, p1, p2)"
    by (cases "recent_positions s") auto
  let ?s1 = "s\<lparr>time := time s + dt, time_step := dt, recent_positions := (p1, p2, center s)\<rparr>"
  let ?ph = "(drop k (position_history h) @ drop k (position_history h))[Suc k := center s]"
  let ?h' = "h\<lparr>position_history := ?ph,
                acceleration_history :=
                    (drop k (acceleration_history h) @ drop k (acceleration_history h))
                      [Suc k := get_acceleration ?s1],
                history_index := int k + 1\<rparr>"
  let ?s' = "?s1\<lparr>hist := Some ?h'\<rparr>"
  have "add_to_position_history ?s1 = Inr ?s'"
    using compaction_skips_a_slot[of ?s1 h k] assms by simp
  then have inc: "increment_clock s dt = Inr ?s'"
    using assms(7,8) r by (simp add: increment_clock_def Let_def)
  have len: "length ?ph = 2 * k" using assms(2) by simp
  have i0: "astype_int (clip (of_int (int k + 1) - 0 / dt) 0 (of_int (int k + 1))) = int k + 1"
    using astype_int_of_int[of "int k + 1"] by simp
  have i1: "astype_int (clip (of_int (int k + 1) - dt / dt) 0 (of_int (int k + 1))) = int k"
    using assms(8) astype_int_of_int[of "int k"] by (simp add: clip_def astype_int_def)
  have i2: "astype_int (clip (of_int (int k + 1) - 2 * dt / dt) 0 (of_int (int k + 1))) = int k - 1"
  proof -
    have "of_int (int k + 1) - 2 * dt / dt = (of_int (int k - 1) :: real)" using assms(8) by simp
    moreover have "clip (of_int (int k - 1)) 0 (of_int (int k + 1)) = (of_int (int k - 1) :: real)"
      using assms(4) by (simp add: clip_def)
    moreover have "astype_int (of_int (int k - 1)) = int k - 1"
      using assms(4) unfolding astype_int_def by (simp only: floor_of_int of_int_0_le_iff) simp
    ultimately show ?thesis by simp
  qed
  have v0: "?ph ! Suc k = center s" using len assms(4) by simp
  have v1: "?ph ! k = position_history h ! k"
    using assms(2,4) by (simp add: nth_append)
  have v2: "?ph ! (k - 1) = position_history h ! (2 * k - 1)"
  proof -
    have "k - 1 < k" using assms(4) by simp
    then have "?ph ! (k - 1) = drop k (position_history h) ! (k - 1)"
      using assms(2) by (simp add: nth_append)
    also have "\<dots> = position_history h ! (k + (k - 1))"
      using assms(2,4) by (simp add: nth_drop)
    also have "k + (k - 1) = 2 * k - 1" using assms(4) by simp
    finally show ?thesis .
  qed
  have hs': "hist ?s' = Some ?h'" by simp
  have lo': "0 \<le> history_index ?h'" by simp
  have hi': "history_index ?h' < int (length ?ph)" using len assms(4) by simp
  have "get_info_from_delays ?s' ?ph [0, dt, 2 * dt] =
          Inr [?ph ! nat (int k + 1), ?ph ! nat (int k), ?ph ! nat (int k - 1)]"
    unfolding get_info_recorded[OF hs' lo' hi'] using i0 i1 i2 by simp
  then have "get_past_position ?s' [0, dt, 2 * dt] =
          Inr [?ph ! nat (int k + 1), ?ph ! nat (int k), ?ph ! nat (int k - 1)]"
    by (simp add: get_past_position_def)
  moreover have "nat (int k + 1) = Suc k" "nat (int k - 1) = k - 1" by simp_all
  ultimately have "get_past_position ?s' [0, dt, 2 * dt] =
      Inr [center s, position_history h ! k, position_history h ! (2 * k - 1)]"
    using v0 v1 v2 by simp
  with inc show ?thesis by blast
qed

text \<open>
  C3 at a concrete input. Capacity \<open>N = 4\<close>, \<open>2N + 1 = 9\<close> frames of time step \<open>1\<close> at the
  centers \<open>(1,0,0)\<close> ... \<open>(9,0,0)\<close>: delay \<open>0\<close> returns the ninth sample, but delay \<open>1\<close>
  returns the third sample (the stale row), delay \<open>2\<close> the eighth and delay \<open>3\<close> the
  third again. The claim has delay \<open>1\<close> return the eighth sample and delay \<open>2\<close> the
  seventh.
\<close>

theorem overflowed_buffer_returns_stale_samples:
  "map_sum id (\<lambda>p. get_past_position p [0, 1, 2, 3])
     (record_positions (new_particle zeros3 True 4) 1
        [(1, 0, 0), (2, 0, 0), (3, 0, 0), (4, 0, 0), (5, 0, 0),
         (6, 0, 0), (7, 0, 0), (8, 0, 0), (9, 0, 0)])
     = Inr (Inr [(9, 0, 0), (3, 0, 0), (8, 0, 0), (3, 0, 0)])"
  by code_simp

text \<open>
  With an odd capacity the first record on a full buffer raises \<open>ValueError\<close>: the two
  halves of the copy have different numbers of rows. With capacity \<open>2\<close> or less it raises
  \<open>IndexError\<close>: the row \<open>hist_size // 2 + 1\<close> does not exist.
\<close>

lemma odd_capacity_overflow_raises:
  "map_sum id (\<lambda>p. ()) (record_positions (new_particle zeros3 True 3) 1
        [(1, 0, 0), (2, 0, 0), (3, 0, 0), (4, 0, 0)]) = Inl ValueError"
  by code_simp

lemma small_capacity_overflow_raises:
  "map_sum id (\<lambda>p. ()) (record_positions (new_particle zeros3 True 2) 1
        [(1, 0, 0), (2, 0, 0), (3, 0, 0)]) = Inl IndexError"
  by code_simp


section \<open>Properties of the forces\<close>

subsection \<open>Norms\<close>

lemma dot_self_nonneg: "0 \<le> dot v v"
  by (cases v) simp

lemma norm3_nonneg: "0 \<le> norm3 v"
  by (simp add: norm3_def dot_self_nonneg)

lemma norm3_eq_zero: "norm3 v = 0 \<longleftrightarrow> v = zeros3"
proof -
  obtain a b c where v: "v = (a, b, c)" by (cases v) auto
  have "a = 0 \<and> b = 0 \<and> c = 0" if z: "a * a + b * b + c * c = 0"
  proof -
    have "a * a = 0 \<and> b * b = 0 \<and> c * c = 0"
      using z zero_le_square[of a] zero_le_square[of b] zero_le_square[of c] by linarith
    then show ?thesis by simp
  qed
  then have "a * a + b * b + c * c = 0 \<longleftrightarrow> a = 0 \<and> b = 0 \<and> c = 0" by auto
  then show ?thesis by (simp add: v norm3_def zeros3_def)
qed

lemma norm3_smul: "norm3 (smul k v) = \<bar>k\<bar> * norm3 v"
proof -
  obtain a b c where v: "v = (a, b, c)" by (cases v) auto
  have "k * a * (k * a) + k * b * (k * b) + k * c * (k * c) = k\<^sup>2 * (a * a + b * b + c * c)"
    by (simp add: power2_eq_square algebra_simps)
  then show ?thesis by (simp add: v norm3_def real_sqrt_mult)
qed

lemma sdiv_smul: "sdiv v k = smul (1 / k) v"
  by (cases v) simp

lemma norm3_sdiv: "norm3 (sdiv v k) = norm3 v / \<bar>k\<bar>"
  by (simp add: sdiv_smul norm3_smul)

lemma norm3_unit: "v \<noteq> zeros3 \<Longrightarrow> norm3 (sdiv v (norm3 v)) = 1"
  using norm3_eq_zero[of v] norm3_nonneg[of v] by (simp add: norm3_sdiv)

lemma norm3_x: "norm3 (a, 0, 0) = \<bar>a\<bar>"
  by (simp add: norm3_def)

subsection \<open>Coulomb force\<close>

lemma coulomb_rows:
  assumes "length centers = length points"
  shows "map2 (\<lambda>u a. xdiv (smul q u) (xsquare a))
           (map2 unit_diff (map2 vsub points centers) (map norm3 (map2 vsub points centers)))
           (map (adjusted_norm radius) (map norm3 (map2 vsub points centers)))
         = map2 (coulomb_row q radius) points centers"
  using assms[symmetric]
  by (induction points centers rule: list_induct2) (simp_all add: coulomb_row_def Let_def)

lemma coulomb_row_spec:
  assumes "0 < r"
  shows "coulomb_row q r x s = spec_coulomb q r s x"
proof -
  have "0 \<le> norm3 (vsub x s)" by (rule norm3_nonneg)
  then show ?thesis using assms
    by (auto simp: coulomb_row_def spec_coulomb_def Let_def unit_diff_def adjusted_norm_def
                   power2_eq_square)
qed

lemma source_positions_constructed:
  assumes "constructed track p"
  shows "\<exists>centers. source_positions p c points = Inr centers \<and> length centers = length points"
proof (cases "track_position_history p")
  case False
  then show ?thesis by (simp add: source_positions_def)
next
  case True
  from assms have inv: "history_inv track p" by (rule constructed_history_inv)
  with True have t: track by (simp add: history_inv_def)
  from inv t obtain h where h: "hist p = Some h" by (auto simp: history_inv_def split: option.splits)
  from inv t have inv': "history_inv True p" by simp
  from get_info_tracked[OF inv' h refl, of "map (\<lambda>x. norm3 (vsub x (center p)) / c) points"] h True
  show ?thesis by (simp add: source_positions_def get_past_position_def)
qed

lemma coulomb_force_rows:
  assumes "source_positions p 2 points = Inr centers" and "length centers = length points"
  shows "coulomb_force points p radius_opt =
           Inr (map2 (coulomb_row (charge p)
                        (case radius_opt of None \<Rightarrow> get_radius p | Some r \<Rightarrow> r))
                  points centers)"
proof -
  let ?R = "case radius_opt of None \<Rightarrow> get_radius p | Some r \<Rightarrow> r"
  let ?D = "map2 vsub points centers"
  have "points_to_particle_info p points radius_opt 2 =
          Inr (map2 unit_diff ?D (map norm3 ?D), map norm3 ?D, map (adjusted_norm ?R) (map norm3 ?D))"
    using assms(1) unfolding points_to_particle_info_def source_positions_def Let_def
    by (auto split: if_splits)
  then have "coulomb_force points p radius_opt =
          Inr (map2 (\<lambda>u a. xdiv (smul (charge p) u) (xsquare a))
                 (map2 unit_diff ?D (map norm3 ?D)) (map (adjusted_norm ?R) (map norm3 ?D)))"
    by (simp only: coulomb_force_def sum.case prod.case get_charge_def)
  then show ?thesis by (simp only: coulomb_rows[OF assms(2)])
qed

lemma spec_coulomb_at_source: "norm3 (vsub x s) = 0 \<Longrightarrow> spec_coulomb q r s x = zeros3"
  by (simp add: spec_coulomb_def)

lemma spec_coulomb_far:
  assumes "r \<le> norm3 (vsub x s)" "0 < r"
  shows "norm3 (spec_coulomb q r s x) = \<bar>q\<bar> / (norm3 (vsub x s))\<^sup>2"
proof -
  let ?d = "norm3 (vsub x s)"
  have d: "0 < ?d" using assms by linarith
  then have nz: "vsub x s \<noteq> zeros3" using norm3_eq_zero[of "vsub x s"] by auto
  have "spec_coulomb q r s x = sdiv (smul q (sdiv (vsub x s) ?d)) (?d\<^sup>2)"
    using assms d by (simp add: spec_coulomb_def Let_def)
  then show ?thesis
    using norm3_unit[OF nz] by (simp add: norm3_sdiv norm3_smul)
qed

lemma spec_coulomb_near:
  assumes "0 < norm3 (vsub x s)" "norm3 (vsub x s) < r"
  shows "norm3 (spec_coulomb q r s x) = \<bar>q\<bar> * (norm3 (vsub x s))\<^sup>2 / r ^ 4"
proof -
  let ?d = "norm3 (vsub x s)"
  have nz: "vsub x s \<noteq> zeros3" using assms norm3_eq_zero[of "vsub x s"] by auto
  have r: "0 < r" using assms by linarith
  have "spec_coulomb q r s x = sdiv (smul q (sdiv (vsub x s) ?d)) ((r\<^sup>2 / ?d)\<^sup>2)"
    using assms by (simp add: spec_coulomb_def Let_def)
  then have "norm3 (spec_coulomb q r s x) = \<bar>q\<bar> / (r\<^sup>2 / ?d)\<^sup>2"
    using norm3_unit[OF nz] by (simp add: norm3_sdiv norm3_smul)
  also have "\<dots> = \<bar>q\<bar> * ?d\<^sup>2 / r ^ 4"
    using assms r by (simp add: power_divide power2_eq_square power4_eq_xxxx)
  finally show ?thesis .
qed

lemma suppressed_below_inverse_square:
  fixes d r q :: real
  assumes "0 < d" "d < r" "q \<noteq> 0"
  shows "\<bar>q\<bar> * d\<^sup>2 / r ^ 4 < \<bar>q\<bar> / d\<^sup>2"
proof -
  have r: "0 < r" using assms by linarith
  have "d ^ 4 < r ^ 4" using assms by (simp add: power_strict_mono)
  then have lt: "\<bar>q\<bar> * d ^ 4 < \<bar>q\<bar> * r ^ 4" using assms(3) by simp
  have pos: "0 < r ^ 4 * d\<^sup>2" using r assms(1) by simp
  have e1: "\<bar>q\<bar> * d\<^sup>2 / r ^ 4 = (\<bar>q\<bar> * d ^ 4) / (r ^ 4 * d\<^sup>2)"
    using assms(1) by (simp add: power4_eq_xxxx power2_eq_square)
  have e2: "\<bar>q\<bar> / d\<^sup>2 = (\<bar>q\<bar> * r ^ 4) / (r ^ 4 * d\<^sup>2)"
    using r by simp
  show ?thesis unfolding e1 e2 using lt pos by (rule divide_strict_right_mono)
qed

lemma suppressed_bounded:
  fixes d r q :: real
  assumes "0 < d" "d < r"
  shows "\<bar>q\<bar> * d\<^sup>2 / r ^ 4 \<le> \<bar>q\<bar> / r\<^sup>2"
proof -
  have r: "0 < r" using assms by linarith
  have "d\<^sup>2 \<le> r\<^sup>2" using assms by (simp add: power_mono)
  then have le: "\<bar>q\<bar> * d\<^sup>2 \<le> \<bar>q\<bar> * r\<^sup>2" by (simp add: mult_left_mono)
  have e: "\<bar>q\<bar> / r\<^sup>2 = (\<bar>q\<bar> * r\<^sup>2) / r ^ 4"
    using r by (simp add: power4_eq_xxxx power2_eq_square)
  have "0 \<le> r ^ 4" by simp
  with le show ?thesis unfolding e by (rule divide_right_mono)
qed

text \<open>
  C1 (as amended). For a reachable particle and a suppression radius \<open>r > 0\<close> (given, or
  the particle's own radius), \<open>coulomb_force\<close> returns at each point the specification's
  \<open>q \<sqdot> u / a\<^sup>2\<close> for the source position of that point. With \<open>d\<close> the distance to that
  position: at \<open>d = 0\<close> the force is the zero vector; for \<open>0 < d < r\<close> its magnitude is
  \<open>|q| d\<^sup>2 / r\<^sup>4\<close>, which is at most \<open>|q| / r\<^sup>2\<close> and, when \<open>q \<noteq> 0\<close>, strictly less than
  \<open>|q| / d\<^sup>2\<close>; for \<open>d \<ge> r\<close> it is \<open>|q| / d\<^sup>2\<close>.
\<close>

theorem coulomb_force_suppressed:
  assumes "constructed track p"
      and "r = (case radius_opt of None \<Rightarrow> get_radius p | Some r' \<Rightarrow> r')"
      and "0 < r"
  shows "\<exists>centers. source_positions p 2 points = Inr centers \<and> length centers = length points
      \<and> coulomb_force points p radius_opt =
           Inr (map2 (\<lambda>x s. spec_coulomb (charge p) r s x) points centers)
      \<and> (\<forall>i < length points.
            let d = norm3 (vsub (points ! i) (centers ! i));
                F = spec_coulomb (charge p) r (centers ! i) (points ! i)
            in (d = 0 \<longrightarrow> F = zeros3)
             \<and> (0 < d \<and> d < r \<longrightarrow>
                  norm3 F = \<bar>charge p\<bar> * d\<^sup>2 / r ^ 4
                  \<and> norm3 F \<le> \<bar>charge p\<bar> / r\<^sup>2
                  \<and> (charge p \<noteq> 0 \<longrightarrow> norm3 F < \<bar>charge p\<bar> / d\<^sup>2))
             \<and> (r \<le> d \<longrightarrow> norm3 F = \<bar>charge p\<bar> / d\<^sup>2))"
proof -
  from source_positions_constructed[OF assms(1)] obtain centers where
    c: "source_positions p 2 points = Inr centers" "length centers = length points" by blast
  have "map2 (coulomb_row (charge p) r) points centers =
        map2 (\<lambda>x s. spec_coulomb (charge p) r s x) points centers"
    using coulomb_row_spec[OF assms(3)] by simp
  with coulomb_force_rows[OF c, of radius_opt] assms(2)
  have f: "coulomb_force points p radius_opt =
           Inr (map2 (\<lambda>x s. spec_coulomb (charge p) r s x) points centers)" by simp
  have "(let d = norm3 (vsub x s); F = spec_coulomb (charge p) r s x
            in (d = 0 \<longrightarrow> F = zeros3)
             \<and> (0 < d \<and> d < r \<longrightarrow>
                  norm3 F = \<bar>charge p\<bar> * d\<^sup>2 / r ^ 4
                  \<and> norm3 F \<le> \<bar>charge p\<bar> / r\<^sup>2
                  \<and> (charge p \<noteq> 0 \<longrightarrow> norm3 F < \<bar>charge p\<bar> / d\<^sup>2))
             \<and> (r \<le> d \<longrightarrow> norm3 F = \<bar>charge p\<bar> / d\<^sup>2))" for x s
    unfolding Let_def
    using spec_coulomb_at_source[of x s "charge p" r]
          spec_coulomb_near[of x s r "charge p"]
          spec_coulomb_far[OF _ assms(3), of x s "charge p"]
          suppressed_below_inverse_square[of "norm3 (vsub x s)" r "charge p"]
          suppressed_bounded[of "norm3 (vsub x s)" r "charge p"]
    by auto
  with c f show ?thesis by blast
qed

theorem coulomb_force_suppressed_witness:
  "constructed False (new_particle zeros3 False 4)
   \<and> (0 :: real) < 1 / 5
   \<and> coulomb_force [(1 / 10, 0, 0), (0, 0, 0), (2, 0, 0)] (new_particle zeros3 False 4) None
       = Inr [(25 / 4, 0, 0), (0, 0, 0), (1 / 4, 0, 0)]
   \<and> norm3 (25 / 4, 0, 0) < \<bar>charge (new_particle zeros3 False 4)\<bar> / (1 / 10)\<^sup>2"
proof -
  have i: "ChargedParticle_init zeros3 1 1 (1 / 5) False 4 10 = Inr (new_particle zeros3 False 4)"
    by (rule new_particle_init) simp
  then have c: "constructed False (new_particle zeros3 False 4)" by (rule constructed.init)
  have r: "1 / 5 = (case None of None \<Rightarrow> get_radius (new_particle zeros3 False 4) | Some r' \<Rightarrow> r')"
    by (simp add: get_radius_def new_particle_def)
  have s: "source_positions (new_particle zeros3 False 4) 2 [(1 / 10, 0, 0), (0, 0, 0), (2, 0, 0)]
           = Inr [(0, 0, 0), (0, 0, 0), (0, 0, 0)]"
    by (simp add: source_positions_def new_particle_def zeros3_def)
  from coulomb_force_suppressed[OF c r, of "[(1 / 10, 0, 0), (0, 0, 0), (2, 0, 0)]"] s c
  show ?thesis
    by (auto simp: spec_coulomb_def norm3_x zeros3_def new_particle_def Let_def power2_eq_square)
qed

text \<open>
  C1 as stated fails for a source of charge \<open>0\<close>: inside the radius the force magnitude
  is \<open>0\<close>, which is the unsuppressed value \<open>|q| / d\<^sup>2 = 0\<close> and not strictly less.
\<close>

theorem coulomb_force_zero_charge_not_strictly_less:
  "ChargedParticle_init zeros3 0 1 (1 / 5) False 4 10
     = Inr ((new_particle zeros3 False 4)\<lparr>charge := 0\<rparr>)
   \<and> coulomb_force [(1 / 10, 0, 0)] ((new_particle zeros3 False 4)\<lparr>charge := 0\<rparr>) None
       = Inr [(0, 0, 0)]
   \<and> norm3 (vsub (1 / 10, 0, 0) (center ((new_particle zeros3 False 4)\<lparr>charge := 0\<rparr>))) = 1 / 10
   \<and> \<not> norm3 (0, 0, 0) < \<bar>charge ((new_particle zeros3 False 4)\<lparr>charge := 0\<rparr>)\<bar> / (1 / 10)\<^sup>2"
  by (simp add: ChargedParticle_init_def init_clock_def new_particle_def Let_def zeros3_def
        coulomb_force_def points_to_particle_info_def get_radius_def get_charge_def
        norm3_x unit_diff_def adjusted_norm_def)

subsection \<open>Lorentz force\<close>

lemma lorentz_rows:
  assumes "length points = length centers" and "length centers = length accs"
  shows "map2 (\<lambda>ap dn. xdiv (smul (- q) ap) dn)
           (map2 (\<lambda>a (dp, u). vsub a (smul dp u)) accs
              (zip (map2 dot (map2 unit_diff (map2 vsub points centers)
                                 (map norm3 (map2 vsub points centers))) accs)
                   (map2 unit_diff (map2 vsub points centers)
                                 (map norm3 (map2 vsub points centers)))))
           (map (xscale k) (map (adjusted_norm radius) (map norm3 (map2 vsub points centers))))
         = map (\<lambda>(x, s, acc).
                  (let d = vsub x s; n = norm3 d; u = unit_diff d n
                   in xdiv (smul (- q) (vsub acc (smul (dot u acc) u)))
                        (xscale k (adjusted_norm radius n))))
             (zip points (zip centers accs))"
  using assms
  by (induction points centers accs rule: list_induct3) (simp_all add: Let_def)

lemma radiation_row_spec:
  assumes "c \<noteq> 0" "epsilon0 \<noteq> 0"
  shows "radiation_row q r c epsilon0 x s acc = spec_radiation q r c epsilon0 s acc x"
proof -
  have "0 \<le> norm3 (vsub x s)" by (rule norm3_nonneg)
  then show ?thesis
    by (auto simp: radiation_row_def spec_radiation_def Let_def unit_diff_def adjusted_norm_def
                   power2_eq_square)
qed

lemma dot_self: "dot v v = (norm3 v)\<^sup>2"
  by (simp add: norm3_def dot_self_nonneg)

lemma dot_vsub_smul: "dot u (vsub a (smul k u)) = dot u a - k * dot u u"
  by (cases u; cases a) (simp add: algebra_simps)

lemma perpendicular_part:
  assumes "vsub x s \<noteq> zeros3"
  shows "dot (sdiv (vsub x s) (norm3 (vsub x s)))
             (vsub acc (smul (dot (sdiv (vsub x s) (norm3 (vsub x s))) acc)
                             (sdiv (vsub x s) (norm3 (vsub x s))))) = 0"
  using norm3_unit[OF assms] by (simp add: dot_vsub_smul dot_self)

lemma lorentz_force_rows:
  assumes "source_positions p c points = Inr centers" and "length centers = length points"
      and "get_past_acceleration p (map2 (\<lambda>x s. norm3 (vsub x s) / c) points centers) = Inr accs"
      and "length accs = length points"
  shows "lorentz_force points p radius_opt c epsilon0 =
           Inr (map (\<lambda>(x, s, acc). radiation_row (charge p)
                        (case radius_opt of None \<Rightarrow> get_radius p | Some r \<Rightarrow> r) c epsilon0 x s acc)
                  (zip points (zip centers accs)))"
proof -
  let ?R = "case radius_opt of None \<Rightarrow> get_radius p | Some r \<Rightarrow> r"
  let ?D = "map2 vsub points centers"
  let ?U = "map2 unit_diff ?D (map norm3 ?D)"
  have pi: "points_to_particle_info p points radius_opt c =
          Inr (?U, map norm3 ?D, map (adjusted_norm ?R) (map norm3 ?D))"
    using assms(1) unfolding points_to_particle_info_def source_positions_def Let_def
    by (auto split: if_splits)
  have d: "map (\<lambda>n. n / c) (map norm3 ?D) = map2 (\<lambda>x s. norm3 (vsub x s) / c) points centers"
    by (auto simp: split_def)
  have "lorentz_force points p radius_opt c epsilon0 =
          Inr (map2 (\<lambda>ap dn. xdiv (smul (- charge p) ap) dn)
                 (map2 (\<lambda>a (dp, u). vsub a (smul dp u)) accs (zip (map2 dot ?U accs) ?U))
                 (map (xscale (4 * pi * epsilon0 * c\<^sup>2)) (map (adjusted_norm ?R) (map norm3 ?D))))"
    unfolding lorentz_force_def pi
    by (simp only: sum.case prod.case Let_def d assms(3) get_charge_def)
  also have "\<dots> = Inr (map (\<lambda>(x, s, acc). radiation_row (charge p) ?R c epsilon0 x s acc)
                  (zip points (zip centers accs)))"
    unfolding radiation_row_def
    using lorentz_rows[of points centers accs "charge p" "4 * pi * epsilon0 * c\<^sup>2" ?R] assms(2,4)
    by simp
  finally show ?thesis .
qed

lemma spec_radiation_magnitude:
  assumes "0 < norm3 (vsub x s)" and "c \<noteq> 0" and "epsilon0 \<noteq> 0"
  shows "norm3 (spec_radiation q r c epsilon0 s acc x) =
           \<bar>q\<bar> * norm3 (vsub acc (smul (dot (sdiv (vsub x s) (norm3 (vsub x s))) acc)
                                        (sdiv (vsub x s) (norm3 (vsub x s)))))
           / (\<bar>4 * pi * epsilon0 * c\<^sup>2\<bar>
              * (if norm3 (vsub x s) < r then r\<^sup>2 / norm3 (vsub x s) else norm3 (vsub x s)))"
proof -
  let ?d = "norm3 (vsub x s)"
  let ?a = "if ?d < r then r\<^sup>2 / ?d else ?d"
  have a: "0 < ?a" using assms(1) by (auto intro: divide_pos_pos simp: power2_eq_square)
  have "\<bar>4 * pi * epsilon0 * c\<^sup>2 * ?a\<bar> = \<bar>4 * pi * epsilon0 * c\<^sup>2\<bar> * ?a"
    using a by (simp only: abs_mult abs_of_pos)
  then show ?thesis
    using assms(1) by (simp add: spec_radiation_def Let_def norm3_sdiv norm3_smul)
qed

text \<open>
  C2 (as amended). For a reachable tracking particle, \<open>c \<noteq> 0\<close> and \<open>\<epsilon>\<^sub>0 \<noteq> 0\<close>,
  \<open>lorentz_force\<close> looks the source position up as \<open>coulomb_force\<close> does (with its own
  \<open>c\<close>), takes for each point the delay \<open>d / c\<close> with \<open>d\<close> the true distance to that
  position (not the adjusted one), looks the acceleration up at that delay, and returns
  \<open>- q \<sqdot> perp / (4 \<pi> \<epsilon>\<^sub>0 c\<^sup>2 a)\<close>: \<open>perp\<close> has no component along the line of sight,
  and the magnitude falls off linearly in the adjusted distance \<open>a\<close>.
\<close>

theorem lorentz_force_radiation:
  assumes "constructed True p"
      and "r = (case radius_opt of None \<Rightarrow> get_radius p | Some r' \<Rightarrow> r')"
      and "c \<noteq> 0" and "epsilon0 \<noteq> 0"
  shows "\<exists>centers accs.
        source_positions p c points = Inr centers \<and> length centers = length points
      \<and> get_past_acceleration p (map2 (\<lambda>x s. norm3 (vsub x s) / c) points centers) = Inr accs
      \<and> length accs = length points
      \<and> lorentz_force points p radius_opt c epsilon0 =
           Inr (map (\<lambda>(x, s, acc). spec_radiation (charge p) r c epsilon0 s acc x)
                  (zip points (zip centers accs)))
      \<and> (\<forall>i < length points.
            let x = points ! i; s = centers ! i; acc = accs ! i;
                d = norm3 (vsub x s);
                u = sdiv (vsub x s) d;
                perp = vsub acc (smul (dot u acc) u);
                F = spec_radiation (charge p) r c epsilon0 s acc x
            in (d = 0 \<longrightarrow> F = zeros3)
             \<and> (0 < d \<longrightarrow> dot u perp = 0
                  \<and> norm3 F = \<bar>charge p\<bar> * norm3 perp
                       / (\<bar>4 * pi * epsilon0 * c\<^sup>2\<bar> * (if d < r then r\<^sup>2 / d else d))))"
proof -
  from source_positions_constructed[OF assms(1)] obtain centers where
    c: "source_positions p c points = Inr centers" "length centers = length points" by blast
  from assms(1) have inv: "history_inv True p" by (rule constructed_history_inv)
  then obtain h where h: "hist p = Some h"
      and len: "length (acceleration_history h) = length (position_history h)"
    by (auto simp: history_inv_def split: option.splits)
  from get_info_tracked[OF inv h len, of "map2 (\<lambda>x s. norm3 (vsub x s) / c) points centers"] h c(2)
  obtain accs where
    a: "get_past_acceleration p (map2 (\<lambda>x s. norm3 (vsub x s) / c) points centers) = Inr accs"
       "length accs = length points"
    by (auto simp: get_past_acceleration_def)
  have f: "lorentz_force points p radius_opt c epsilon0 =
           Inr (map (\<lambda>(x, s, acc). spec_radiation (charge p) r c epsilon0 s acc x)
                  (zip points (zip centers accs)))"
    using lorentz_force_rows[OF c a, of radius_opt epsilon0] assms(2)
          radiation_row_spec[OF assms(3,4)]
    by simp
  have "(let d = norm3 (vsub x s);
                u = sdiv (vsub x s) d;
                perp = vsub acc (smul (dot u acc) u);
                F = spec_radiation (charge p) r c epsilon0 s acc x
            in (d = 0 \<longrightarrow> F = zeros3)
             \<and> (0 < d \<longrightarrow> dot u perp = 0
                  \<and> norm3 F = \<bar>charge p\<bar> * norm3 perp
                       / (\<bar>4 * pi * epsilon0 * c\<^sup>2\<bar> * (if d < r then r\<^sup>2 / d else d))))" for x s acc
  proof -
    have 1: "spec_radiation (charge p) r c epsilon0 s acc x = zeros3" if "norm3 (vsub x s) = 0"
      using that by (simp add: spec_radiation_def)
    have 2: "vsub x s \<noteq> zeros3" if "0 < norm3 (vsub x s)"
      using that norm3_eq_zero[of "vsub x s"] by auto
    show ?thesis
      unfolding Let_def
      using 1 perpendicular_part[OF 2, of acc]
            spec_radiation_magnitude[OF _ assms(3,4), of x s "charge p" r acc]
      by auto
  qed
  then have "\<forall>i < length points.
            let x = points ! i; s = centers ! i; acc = accs ! i;
                d = norm3 (vsub x s);
                u = sdiv (vsub x s) d;
                perp = vsub acc (smul (dot u acc) u);
                F = spec_radiation (charge p) r c epsilon0 s acc x
            in (d = 0 \<longrightarrow> F = zeros3)
             \<and> (0 < d \<longrightarrow> dot u perp = 0
                  \<and> norm3 F = \<bar>charge p\<bar> * norm3 perp
                       / (\<bar>4 * pi * epsilon0 * c\<^sup>2\<bar> * (if d < r then r\<^sup>2 / d else d)))"
    by (simp add: Let_def)
  with c a f show ?thesis by blast
qed

lemma braking_particle_recorded:
  "record_positions (new_particle (0, 6, 0) True 4) 1
     [(0, 4, 0), (0, 1, 0), (0, 0, 0), (0, 0, 0)] = Inr braking_particle"
proof -
  have "\<not> isl (record_positions (new_particle (0, 6, 0) True 4) 1
                  [(0, 4, 0), (0, 1, 0), (0, 0, 0), (0, 0, 0)])"
    by code_simp
  then show ?thesis unfolding braking_particle_def by simp
qed

lemma braking_particle_hist:
  "hist braking_particle =
     Some \<lparr>position_history = [(0, 4, 0), (0, 1, 0), (0, 0, 0), (0, 0, 0)],
           acceleration_history = [(0, 0, 0), (0, - 1, 0), (0, 2, 0), (0, 0, 0)],
           history_index = 3\<rparr>"
  unfolding braking_particle_def by code_simp

lemma braking_particle_fields:
  "time_step braking_particle = 1 \<and> center braking_particle = (0, 0, 0)
   \<and> charge braking_particle = 1 \<and> track_position_history braking_particle
   \<and> sphere_radius braking_particle = 1 / 5"
  unfolding braking_particle_def by code_simp

lemma braking_particle_constructed: "constructed True braking_particle"
proof -
  have "ChargedParticle_init (0, 6, 0) 1 1 (1 / 5) True 4 10 = Inr (new_particle (0, 6, 0) True 4)"
    by (rule new_particle_init) simp
  then have "constructed True (new_particle (0, 6, 0) True 4)" by (rule constructed.init)
  then show ?thesis using braking_particle_recorded by (rule record_positions_constructed)
qed

lemma braking_particle_positions:
  "get_past_position braking_particle [1 / 2] = Inr [(0, 0, 0)]"
  using braking_particle_hist braking_particle_fields
  by (simp add: get_past_position_def get_info_from_delays_def getitem_def py_index_def
                clip_def astype_int_def)

lemma braking_particle_accelerations:
  "get_past_acceleration braking_particle [1 / 2] = Inr [(0, 2, 0)]
   \<and> get_past_acceleration braking_particle [2] = Inr [(0, - 1, 0)]"
  using braking_particle_hist braking_particle_fields
  by (simp add: get_past_acceleration_def get_info_from_delays_def getitem_def py_index_def
                clip_def astype_int_def)

lemma braking_particle_lorentz:
  "lorentz_force [(1 / 2, 0, 0)] braking_particle (Some 1) 1 (1 / 40) = Inr [(0, - (10 / pi), 0)]"
proof -
  have s: "source_positions braking_particle 1 [(1 / 2, 0, 0)] = Inr [(0, 0, 0)]"
    using braking_particle_positions braking_particle_fields
    by (simp add: source_positions_def norm3_x)
  have a: "get_past_acceleration braking_particle
             (map2 (\<lambda>x s. norm3 (vsub x s) / 1) [(1 / 2, 0, 0)] [(0, 0, 0)]) = Inr [(0, 2, 0)]"
    using braking_particle_accelerations by (simp add: norm3_x)
  from lorentz_force_rows[OF s _ a, of "Some 1" "1 / 40"] braking_particle_fields
  show ?thesis
    by (simp add: radiation_row_def Let_def norm3_x unit_diff_def adjusted_norm_def)
qed

theorem lorentz_force_radiation_witness:
  "constructed True braking_particle \<and> (1 :: real) \<noteq> 0 \<and> (1 / 40 :: real) \<noteq> 0
   \<and> source_positions braking_particle 1 [(1 / 2, 0, 0)] = Inr [(0, 0, 0)]
   \<and> get_past_acceleration braking_particle [1 / 2] = Inr [(0, 2, 0)]
   \<and> lorentz_force [(1 / 2, 0, 0)] braking_particle (Some 1) 1 (1 / 40)
       = Inr [(0, - (10 / pi), 0)]"
proof -
  have s: "source_positions braking_particle 1 [(1 / 2, 0, 0)] = Inr [(0, 0, 0)]"
    using braking_particle_positions braking_particle_fields
    by (simp add: source_positions_def norm3_x)
  have r: "1 = (case Some 1 of None \<Rightarrow> get_radius braking_particle | Some r' \<Rightarrow> r')" by simp
  from lorentz_force_radiation[OF braking_particle_constructed r, of 1 "1 / 40" "[(1 / 2, 0, 0)]"]
  obtain centers accs where
    c: "source_positions braking_particle 1 [(1 / 2, 0, 0)] = Inr centers"
    and a: "get_past_acceleration braking_particle
              (map2 (\<lambda>x s. norm3 (vsub x s) / 1) [(1 / 2, 0, 0)] centers) = Inr accs"
    and f: "lorentz_force [(1 / 2, 0, 0)] braking_particle (Some 1) 1 (1 / 40) =
           Inr (map (\<lambda>(x, s, acc). spec_radiation (charge braking_particle) 1 1 (1 / 40) s acc x)
                  (zip [(1 / 2, 0, 0)] (zip centers accs)))"
    by auto
  from c s have centers: "centers = [(0, 0, 0)]" by simp
  from a braking_particle_accelerations have accs: "accs = [(0, 2, 0)]"
    by (simp add: centers norm3_x)
  from f braking_particle_fields
  have "lorentz_force [(1 / 2, 0, 0)] braking_particle (Some 1) 1 (1 / 40)
       = Inr [(0, - (10 / pi), 0)]"
    by (simp add: centers accs spec_radiation_def Let_def norm3_x)
  with s braking_particle_accelerations braking_particle_constructed show ?thesis by simp
qed

text \<open>
  C2 as stated fails on the delay. For the braking particle, \<open>c = 1\<close>, radius \<open>1\<close> and the
  point \<open>(1/2, 0, 0)\<close>: the source position is the origin, the distance \<open>1/2\<close>, the adjusted
  distance \<open>2\<close>. The acceleration at delay \<open>2\<close> (adjusted distance over \<open>c\<close>) is
  \<open>(0,-1,0)\<close>, with which the formula gives \<open>(0, 5/\<pi>, 0)\<close>; the code returns
  \<open>(0, -10/\<pi>, 0)\<close>, the formula for the acceleration \<open>(0,2,0)\<close> at delay \<open>1/2\<close>.
\<close>

theorem lorentz_delay_uses_true_distance:
  "source_positions braking_particle 1 [(1 / 2, 0, 0)] = Inr [(0, 0, 0)]
   \<and> adjusted_norm 1 (norm3 (vsub (1 / 2, 0, 0) (0, 0, 0))) = Fin 2
   \<and> get_past_acceleration braking_particle [2 / 1] = Inr [(0, - 1, 0)]
   \<and> spec_radiation 1 1 1 (1 / 40) (0, 0, 0) (0, - 1, 0) (1 / 2, 0, 0) = (0, 5 / pi, 0)
   \<and> lorentz_force [(1 / 2, 0, 0)] braking_particle (Some 1) 1 (1 / 40)
       = Inr [(0, - (10 / pi), 0)]
   \<and> (0, - (10 / pi), 0) \<noteq> (0 :: real, 5 / pi, 0 :: real)"
proof -
  have s: "source_positions braking_particle 1 [(1 / 2, 0, 0)] = Inr [(0, 0, 0)]"
    using braking_particle_positions braking_particle_fields
    by (simp add: source_positions_def norm3_x)
  have a: "adjusted_norm 1 (norm3 (vsub (1 / 2, 0, 0) (0, 0, 0))) = Fin 2"
    by (simp add: adjusted_norm_def norm3_x)
  have sp: "spec_radiation 1 1 1 (1 / 40) (0, 0, 0) (0, - 1, 0) (1 / 2, 0, 0) = (0, 5 / pi, 0)"
    by (simp add: spec_radiation_def Let_def norm3_x)
  have ne: "(0, - (10 / pi), 0) \<noteq> (0 :: real, 5 / pi, 0 :: real)"
  proof -
    have "- (10 / pi) \<noteq> 5 / pi"
    proof
      assume "- (10 / pi) = 5 / pi"
      then have "(- 10) / pi = 5 / pi" by simp
      then have "(- 10 :: real) = 5" using pi_gt_zero by (simp only: divide_cancel_right) auto
      then show False by simp
    qed
    then show ?thesis by simp
  qed
  from s a sp ne braking_particle_accelerations braking_particle_lorentz show ?thesis by simp
qed


section \<open>Properties of the fields\<close>

lemma py_add_zero: "py_add (PyInt 0) arr = NdArray arr"
  by (simp add: map_idI)

text \<open>
  C6 at the empty source set. Python's \<open>sum\<close> of no arrays is the integer \<open>0\<close>: both
  fields return it, not an array of zero vectors with one row per point (which is what
  the base class returns), and the closure of \<open>add_field_force\<close>, which subscripts the
  result, raises \<open>TypeError\<close>.
\<close>

theorem empty_field_returns_int_zero:
  "CoulombField_get_forces \<lparr>charges = []\<rparr> points = Inr (PyInt 0)
   \<and> LorentzField_get_forces \<lparr>charges = [], radius_of_suppression = r, speed_c = c\<rparr> points
       = Inr (PyInt 0)
   \<and> field_force q (CoulombField_get_forces \<lparr>charges = []\<rparr>) x = Inl TypeError"
  by (simp add: CoulombField_get_forces_def LorentzField_get_forces_def field_force_def)

lemma base_field_returns_zero_rows:
  "ChargeBasedVectorField_get_forces fld points = replicate (length points) zeros3"
  by (simp add: ChargeBasedVectorField_get_forces_def map_replicate_const)

subsection \<open>Superposition\<close>

lemma map2_vadd_assoc:
  "map2 vadd (map2 vadd a b) c = map2 vadd a (map2 vadd b c)"
proof (induction a arbitrary: b c)
  case Nil
  show ?case by simp
next
  case (Cons x a)
  show ?case
  proof (cases b)
    case Nil then show ?thesis by simp
  next
    case (Cons y b')
    note b = this
    show ?thesis
    proof (cases c)
      case Nil then show ?thesis by simp
    next
      case (Cons z c')
      obtain x1 x2 x3 where x: "x = (x1, x2, x3)" by (cases x) auto
      obtain y1 y2 y3 where y: "y = (y1, y2, y3)" by (cases y) auto
      obtain z1 z2 z3 where z: "z = (z1, z2, z3)" by (cases z) auto
      show ?thesis using Cons.IH[of b' c'] by (simp add: b Cons x y z)
    qed
  qed
qed

lemma py_sum_acc:
  assumes "\<And>ch. ch \<in> set chs \<Longrightarrow> \<exists>arr. f ch = Inr arr \<and> length arr = n"
      and "well_shaped n acc"
  shows "\<exists>S. py_sum f (PyInt 0) chs = Inr S \<and> well_shaped n S
            \<and> py_sum f acc chs = Inr (np_add acc S)"
  using assms
proof (induction chs arbitrary: acc)
  case Nil
  then show ?case
    by (cases acc) (auto simp: well_shaped_def map_idI)
next
  case (Cons ch chs)
  from Cons.prems(1)[of ch] obtain arr where arr: "f ch = Inr arr" "length arr = n" by auto
  have ws: "well_shaped n (NdArray arr)" using arr by (simp add: well_shaped_def)
  have rest: "\<And>c. c \<in> set chs \<Longrightarrow> \<exists>arr. f c = Inr arr \<and> length arr = n"
    using Cons.prems(1) by simp
  from Cons.IH[OF rest ws] obtain S where
    S: "py_sum f (PyInt 0) chs = Inr S" "well_shaped n S"
       "py_sum f (NdArray arr) chs = Inr (np_add (NdArray arr) S)" by blast
  have ws2: "well_shaped n (py_add acc arr)"
    using Cons.prems(2) arr by (cases acc) (auto simp: well_shaped_def)
  from Cons.IH[OF rest ws2] S(1) have
    A: "py_sum f (py_add acc arr) chs = Inr (np_add (py_add acc arr) S)" by auto
  have assoc: "np_add (py_add acc arr) S = np_add acc (np_add (NdArray arr) S)"
  proof (cases acc)
    case (PyInt k)
    with Cons.prems(2) have "k = 0" by (simp add: well_shaped_def)
    then show ?thesis using PyInt S(2)
      by (cases S) (auto simp: well_shaped_def map_idI)
  next
    case (NdArray a)
    then show ?thesis using S(2)
      by (cases S) (auto simp: well_shaped_def map_idI map2_vadd_assoc)
  qed
  have ws3: "well_shaped n (np_add (NdArray arr) S)"
    using S(2) arr by (cases S) (auto simp: well_shaped_def)
  show ?case
    using arr S A assoc ws3 by (auto simp: py_add_zero)
qed

lemma py_sum_append:
  assumes "\<And>ch. ch \<in> set (as @ bs) \<Longrightarrow> \<exists>arr. f ch = Inr arr \<and> length arr = n"
  shows "\<exists>SA SB. py_sum f (PyInt 0) as = Inr SA \<and> py_sum f (PyInt 0) bs = Inr SB
            \<and> py_sum f (PyInt 0) (as @ bs) = Inr (np_add SA SB)"
  using assms
proof (induction as)
  case Nil
  have "well_shaped n (PyInt 0)" by (simp add: well_shaped_def)
  from py_sum_acc[of bs f n "PyInt 0", OF _ this] Nil obtain S where
    "py_sum f (PyInt 0) bs = Inr S" "well_shaped n S" by auto
  then show ?case by (cases S) (auto simp: well_shaped_def map_idI)
next
  case (Cons a as)
  from Cons.prems[of a] obtain arr where arr: "f a = Inr arr" "length arr = n" by auto
  have ws: "well_shaped n (NdArray arr)" using arr by (simp add: well_shaped_def)
  from py_sum_acc[of as f n "NdArray arr", OF _ ws] Cons.prems obtain SA where
    SA: "py_sum f (PyInt 0) as = Inr SA" "well_shaped n SA"
        "py_sum f (NdArray arr) as = Inr (np_add (NdArray arr) SA)" by auto
  from py_sum_acc[of bs f n "PyInt 0"] Cons.prems obtain SB where
    SB: "py_sum f (PyInt 0) bs = Inr SB" "well_shaped n SB"
    by (auto simp: well_shaped_def)
  from py_sum_acc[of "as @ bs" f n "NdArray arr", OF _ ws] Cons.prems obtain SAB where
    SAB: "py_sum f (PyInt 0) (as @ bs) = Inr SAB"
        "py_sum f (NdArray arr) (as @ bs) = Inr (np_add (NdArray arr) SAB)" by auto
  from Cons.IH Cons.prems SA SB SAB have eq: "SAB = np_add SA SB" by auto
  have assoc: "np_add (NdArray arr) (np_add SA SB) = np_add (np_add (NdArray arr) SA) SB"
    using SA(2) SB(2) arr
    by (cases SA; cases SB) (auto simp: well_shaped_def map_idI map2_vadd_assoc)
  show ?case using arr SA SB SAB eq assoc by (auto simp: py_add_zero)
qed

lemma coulomb_force_constructed:
  assumes "constructed track p"
  shows "\<exists>arr. coulomb_force points p radius_opt = Inr arr \<and> length arr = length points"
proof -
  from source_positions_constructed[OF assms] obtain centers where
    c: "source_positions p 2 points = Inr centers" "length centers = length points" by blast
  from coulomb_force_rows[OF c, of radius_opt] c(2) show ?thesis by simp
qed

lemma lorentz_force_constructed:
  assumes "constructed True p"
  shows "\<exists>arr. lorentz_force points p radius_opt c epsilon0 = Inr arr \<and> length arr = length points"
proof -
  from source_positions_constructed[OF assms] obtain centers where
    c: "source_positions p c points = Inr centers" "length centers = length points" by blast
  from assms have inv: "history_inv True p" by (rule constructed_history_inv)
  then obtain h where h: "hist p = Some h"
      and len: "length (acceleration_history h) = length (position_history h)"
    by (auto simp: history_inv_def split: option.splits)
  from get_info_tracked[OF inv h len, of "map2 (\<lambda>x s. norm3 (vsub x s) / c) points centers"] h c(2)
  obtain accs where
    a: "get_past_acceleration p (map2 (\<lambda>x s. norm3 (vsub x s) / c) points centers) = Inr accs"
       "length accs = length points"
    by (auto simp: get_past_acceleration_def)
  from lorentz_force_rows[OF c a, of radius_opt epsilon0] c(2) a(2) show ?thesis by simp
qed

text \<open>
  For sources that are reachable particles (tracking ones, for the Lorentz field), the
  field of the sources \<open>as @ bs\<close> is the sum, row by row, of the field of \<open>as\<close> and the
  field of \<open>bs\<close>; no force raises.
\<close>

lemma coulomb_field_superposition:
  assumes "\<And>ch. ch \<in> set (as @ bs) \<Longrightarrow> \<exists>track. constructed track ch"
  shows "\<exists>SA SB. CoulombField_get_forces \<lparr>charges = as\<rparr> points = Inr SA
              \<and> CoulombField_get_forces \<lparr>charges = bs\<rparr> points = Inr SB
              \<and> CoulombField_get_forces \<lparr>charges = as @ bs\<rparr> points = Inr (np_add SA SB)"
  unfolding CoulombField_get_forces_def
  using py_sum_append[of as bs "\<lambda>ch. coulomb_force points ch None" "length points"]
        assms coulomb_force_constructed
  by (metis charge_based_vector_field.select_convs(1))

lemma lorentz_field_superposition:
  assumes "\<And>ch. ch \<in> set (as @ bs) \<Longrightarrow> constructed True ch"
  shows "\<exists>SA SB. LorentzField_get_forces \<lparr>charges = as, radius_of_suppression = r, speed_c = c\<rparr> points = Inr SA
              \<and> LorentzField_get_forces \<lparr>charges = bs, radius_of_suppression = r, speed_c = c\<rparr> points = Inr SB
              \<and> LorentzField_get_forces \<lparr>charges = as @ bs, radius_of_suppression = r, speed_c = c\<rparr> points
                  = Inr (np_add SA SB)"
proof -
  have "\<exists>arr. lorentz_force points ch r c (25 / 1000) = Inr arr \<and> length arr = length points"
    if "ch \<in> set (as @ bs)" for ch
    using assms[OF that] by (rule lorentz_force_constructed)
  from py_sum_append[of as bs "\<lambda>ch. lorentz_force points ch r c (25 / 1000)" "length points", OF this]
  show ?thesis by (simp add: LorentzField_get_forces_def)
qed


end
